theory Spec2Isabelle
  imports Main "HOL-Library.Word" "HOL-Library.Code_Target_Nat"
begin

section \<open>Strings\<close>

text \<open>
  A JavaScript string is a sequence of 16-bit code units. A string is falsy exactly when
  it is empty, and \<open>===\<close> on strings is equality of the sequences. \<open>str\<close> writes a
  string constant of the source from its ASCII characters.
\<close>

type_synonym jsstring = "16 word list"

definition unit_of_char :: "char \<Rightarrow> 16 word" where
  "unit_of_char c = of_nat (of_char c)"

definition str :: "string \<Rightarrow> jsstring" where
  "str s = map unit_of_char s"

subsection \<open>String.prototype.trim\<close>

text \<open>
  \<open>trim\<close> removes the code points of the classes WhiteSpace and LineTerminator from
  both ends: U+0009 to U+000D, U+0020, U+00A0, U+1680, U+2000 to U+200A, U+2028, U+2029,
  U+202F, U+205F, U+3000 and U+FEFF. Each of them is one code unit.
\<close>

definition ws_code_points :: "16 word list" where
  "ws_code_points =
     [0x0009, 0x000A, 0x000B, 0x000C, 0x000D, 0x0020, 0x00A0, 0x1680,
      0x2000, 0x2001, 0x2002, 0x2003, 0x2004, 0x2005, 0x2006, 0x2007, 0x2008, 0x2009, 0x200A,
      0x2028, 0x2029, 0x202F, 0x205F, 0x3000, 0xFEFF]"

definition is_ws :: "16 word \<Rightarrow> bool" where
  "is_ws u = (u \<in> set ws_code_points)"

definition trimStart :: "jsstring \<Rightarrow> jsstring" where
  "trimStart s = dropWhile is_ws s"

definition trimEnd :: "jsstring \<Rightarrow> jsstring" where
  "trimEnd s = rev (dropWhile is_ws (rev s))"

definition trim :: "jsstring \<Rightarrow> jsstring" where
  "trim s = trimEnd (trimStart s)"

subsection \<open>Conversion to a USVString and to UTF-8\<close>

text \<open>
  \<open>URLSearchParams\<close> takes its arguments as USVStrings: the string is read as code
  points, a high surrogate followed by a low one giving a code point above U+FFFF, and
  every surrogate that is not part of such a pair is replaced by U+FFFD.
\<close>

definition is_high :: "16 word \<Rightarrow> bool" where
  "is_high u = (0xD800 \<le> unat u \<and> unat u \<le> 0xDBFF)"

definition is_low :: "16 word \<Rightarrow> bool" where
  "is_low u = (0xDC00 \<le> unat u \<and> unat u \<le> 0xDFFF)"

definition is_surrogate :: "16 word \<Rightarrow> bool" where
  "is_surrogate u = (is_high u \<or> is_low u)"

definition single_code_point :: "16 word \<Rightarrow> nat" where
  "single_code_point u = (if is_surrogate u then 0xFFFD else unat u)"

definition pair_code_point :: "16 word \<Rightarrow> 16 word \<Rightarrow> nat" where
  "pair_code_point u v = 0x10000 + (unat u - 0xD800) * 0x400 + (unat v - 0xDC00)"

fun code_points :: "jsstring \<Rightarrow> nat list" where
  "code_points [] = []"
| "code_points [u] = [single_code_point u]"
| "code_points (u # v # s) =
     (if is_high u \<and> is_low v then pair_code_point u v # code_points s
      else single_code_point u # code_points (v # s))"

definition utf16_units :: "nat \<Rightarrow> jsstring" where
  "utf16_units cp =
     (if cp < 0x10000 then [of_nat cp]
      else [of_nat (0xD800 + (cp - 0x10000) div 0x400),
            of_nat (0xDC00 + (cp - 0x10000) mod 0x400)])"

definition utf16_encode :: "nat list \<Rightarrow> jsstring" where
  "utf16_encode cps = concat (map utf16_units cps)"

definition toUSVString :: "jsstring \<Rightarrow> jsstring" where
  "toUSVString s = utf16_encode (code_points s)"

text \<open>The bytes of a code point in UTF-8; a byte is a \<open>char\<close>.\<close>

definition utf8_encode :: "nat \<Rightarrow> string" where
  "utf8_encode cp =
     (if cp < 0x80 then [char_of cp]
      else if cp < 0x800 then [char_of (0xC0 + cp div 64), char_of (0x80 + cp mod 64)]
      else if cp < 0x10000 then
        [char_of (0xE0 + cp div 4096), char_of (0x80 + cp div 64 mod 64),
         char_of (0x80 + cp mod 64)]
      else
        [char_of (0xF0 + cp div 262144), char_of (0x80 + cp div 4096 mod 64),
         char_of (0x80 + cp div 64 mod 64), char_of (0x80 + cp mod 64)])"

definition utf8_bytes :: "jsstring \<Rightarrow> string" where
  "utf8_bytes s = concat (map utf8_encode (code_points s))"

section \<open>URLSearchParams\<close>

text \<open>
  A \<open>URLSearchParams\<close> object is its list of name-value pairs, in order. \<open>set\<close>
  converts the name and the value to USVStrings, then overwrites the first pair of that
  name and removes the others, or appends a new pair.
\<close>

type_synonym params = "(jsstring \<times> jsstring) list"

fun set_pair :: "params \<Rightarrow> jsstring \<Rightarrow> jsstring \<Rightarrow> params" where
  "set_pair [] name v = [(name, v)]"
| "set_pair ((k, x) # rest) name v =
     (if k = name then (name, v) # filter (\<lambda>p. fst p \<noteq> name) rest
      else (k, x) # set_pair rest name v)"

definition URLSearchParams_set :: "params \<Rightarrow> jsstring \<Rightarrow> jsstring \<Rightarrow> params" where
  "URLSearchParams_set ps name v = set_pair ps (toUSVString name) (toUSVString v)"

text \<open>
  \<open>toString\<close> is the application/x-www-form-urlencoded serialiser. Names and values
  are encoded in UTF-8; of the bytes, a space becomes \<open>+\<close>, the ASCII letters and
  digits and \<open>* - . _\<close> stay, every other byte becomes \<open>%\<close> and two upper-case
  hexadecimal digits; pairs are written \<open>name=value\<close> and joined by \<open>&\<close>.
\<close>

definition is_urlencoded_safe :: "char \<Rightarrow> bool" where
  "is_urlencoded_safe c =
     (let n = (of_char c :: nat) in
        (0x30 \<le> n \<and> n \<le> 0x39) \<or> (0x41 \<le> n \<and> n \<le> 0x5A) \<or> (0x61 \<le> n \<and> n \<le> 0x7A)
        \<or> c = CHR ''*'' \<or> c = CHR ''-'' \<or> c = CHR ''.'' \<or> c = CHR ''_'')"

definition hex_digit :: "nat \<Rightarrow> char" where
  "hex_digit n = (if n < 10 then char_of (0x30 + n) else char_of (0x37 + n))"

definition percent_encode_byte :: "char \<Rightarrow> string" where
  "percent_encode_byte c =
     [CHR ''%'', hex_digit ((of_char c :: nat) div 16), hex_digit ((of_char c :: nat) mod 16)]"

definition urlencoded_byte :: "char \<Rightarrow> string" where
  "urlencoded_byte c =
     (if c = CHR '' '' then ''+''
      else if is_urlencoded_safe c then [c]
      else percent_encode_byte c)"

definition urlencoded_string :: "string \<Rightarrow> string" where
  "urlencoded_string s = concat (map urlencoded_byte s)"

fun urlencoded_serialize :: "(string \<times> string) list \<Rightarrow> string" where
  "urlencoded_serialize [] = []"
| "urlencoded_serialize [(k, v)] = urlencoded_string k @ ''='' @ urlencoded_string v"
| "urlencoded_serialize ((k, v) # rest) =
     urlencoded_string k @ ''='' @ urlencoded_string v @ ''&'' @ urlencoded_serialize rest"

definition URLSearchParams_toString :: "params \<Rightarrow> jsstring" where
  "URLSearchParams_toString ps =
     str (urlencoded_serialize (map (\<lambda>p. (utf8_bytes (fst p), utf8_bytes (snd p))) ps))"

section \<open>The request builder\<close>

definition API_BASE_URL :: jsstring where
  "API_BASE_URL = str ''https://api.weatherstack.com''"

definition MODES_CURRENT :: jsstring where
  "MODES_CURRENT = str ''current''"

definition MODES_HISTORICAL :: jsstring where
  "MODES_HISTORICAL = str ''historical''"

definition MODES_MARINE :: jsstring where
  "MODES_MARINE = str ''marine''"

text \<open>
  \<open>API_KEY\<close> is read from the build environment: \<open>None\<close> when the variable is not
  defined, otherwise its text (which may be empty). \<open>API_KEY || ''\<close> is \<open>or_empty\<close>.
\<close>

definition or_empty :: "jsstring option \<Rightarrow> jsstring" where
  "or_empty k = (case k of None \<Rightarrow> [] | Some s \<Rightarrow> s)"

text \<open>
  \<open>buildUrl\<close>, statement by statement. The date is the text of the date field, which
  is falsy when empty.
\<close>

definition buildUrl :: "jsstring option \<Rightarrow> jsstring \<Rightarrow> jsstring \<Rightarrow> jsstring \<Rightarrow> jsstring" where
  "buildUrl API_KEY mode location date =
     (let params = URLSearchParams_set [] (str ''access_key'') (or_empty API_KEY) in
      if mode = MODES_MARINE then
        (let params = URLSearchParams_set params (str ''query'') location in
         API_BASE_URL @ str ''/marine?'' @ URLSearchParams_toString params)
      else
        (let params = URLSearchParams_set params (str ''query'') location;
             params = (if mode = MODES_HISTORICAL \<and> date \<noteq> []
                       then URLSearchParams_set params (str ''historical_date'') date
                       else params);
             endpoint = (if mode = MODES_HISTORICAL then str ''historical'' else str ''current'')
         in API_BASE_URL @ str ''/'' @ endpoint @ str ''?'' @ URLSearchParams_toString params))"

section \<open>Completions\<close>

text \<open>An evaluation either completes with a value or throws an error, kept as its \<open>message\<close>.\<close>

datatype 'a completion = Throw jsstring | Normal 'a

section \<open>buildUrl with its effects\<close>

text \<open>
  The same function with everything it could touch made explicit. The heap holds the
  objects, an address being an index into it: the argument of \<open>buildUrl\<close> is the
  address of an object with the properties \<open>mode\<close>, \<open>location\<close> and \<open>date\<close>, and
  \<open>new URLSearchParams()\<close> allocates a new object. \<open>requests\<close> are the URLs that
  \<open>fetch\<close> has been called with. Reading a property of something that is no such
  object throws.
\<close>

datatype obj = Query jsstring jsstring jsstring | SearchParams params

record world =
  heap :: "obj list"
  requests :: "jsstring list"

definition type_error :: jsstring where
  "type_error = str ''TypeError''"

definition lookup :: "world \<Rightarrow> nat \<Rightarrow> obj option" where
  "lookup w a = (if a < length (heap w) then Some (heap w ! a) else None)"

definition new_URLSearchParams :: "world \<Rightarrow> nat \<times> world" where
  "new_URLSearchParams w = (length (heap w), w\<lparr>heap := heap w @ [SearchParams []]\<rparr>)"

definition params_set :: "nat \<Rightarrow> jsstring \<Rightarrow> jsstring \<Rightarrow> world \<Rightarrow> unit completion \<times> world" where
  "params_set p name v w =
     (case lookup w p of
        Some (SearchParams ps) \<Rightarrow>
          (Normal (), w\<lparr>heap := (heap w)[p := SearchParams (URLSearchParams_set ps name v)]\<rparr>)
      | _ \<Rightarrow> (Throw type_error, w))"

definition params_toString :: "nat \<Rightarrow> world \<Rightarrow> jsstring completion \<times> world" where
  "params_toString p w =
     (case lookup w p of
        Some (SearchParams ps) \<Rightarrow> (Normal (URLSearchParams_toString ps), w)
      | _ \<Rightarrow> (Throw type_error, w))"

definition fetch_call :: "jsstring \<Rightarrow> world \<Rightarrow> world" where
  "fetch_call url w = w\<lparr>requests := requests w @ [url]\<rparr>"

definition buildUrl_in :: "jsstring option \<Rightarrow> nat \<Rightarrow> world \<Rightarrow> jsstring completion \<times> world" where
  "buildUrl_in API_KEY arg w0 =
     (case lookup w0 arg of
        Some (Query mode location date) \<Rightarrow>
          (let (params, w1) = new_URLSearchParams w0 in
           case params_set params (str ''access_key'') (or_empty API_KEY) w1 of
             (Throw e, w2) \<Rightarrow> (Throw e, w2)
           | (Normal _, w2) \<Rightarrow>
               if mode = MODES_MARINE then
                 (case params_set params (str ''query'') location w2 of
                    (Throw e, w3) \<Rightarrow> (Throw e, w3)
                  | (Normal _, w3) \<Rightarrow>
                      (case params_toString params w3 of
                         (Throw e, w4) \<Rightarrow> (Throw e, w4)
                       | (Normal s, w4) \<Rightarrow>
                           (Normal (API_BASE_URL @ str ''/marine?'' @ s), w4)))
               else
                 (case params_set params (str ''query'') location w2 of
                    (Throw e, w3) \<Rightarrow> (Throw e, w3)
                  | (Normal _, w3) \<Rightarrow>
                      (case (if mode = MODES_HISTORICAL \<and> date \<noteq> []
                             then params_set params (str ''historical_date'') date w3
                             else (Normal (), w3)) of
                         (Throw e, w4) \<Rightarrow> (Throw e, w4)
                       | (Normal _, w4) \<Rightarrow>
                           (let endpoint = (if mode = MODES_HISTORICAL then str ''historical''
                                            else str ''current'')
                            in case params_toString params w4 of
                                 (Throw e, w5) \<Rightarrow> (Throw e, w5)
                               | (Normal s, w5) \<Rightarrow>
                                   (Normal (API_BASE_URL @ str ''/'' @ endpoint @ str ''?'' @ s),
                                    w5)))))
      | _ \<Rightarrow> (Throw type_error, w0))"

text \<open>
  The caller's two statements, \<open>const url = buildUrl({ mode, location: location.trim(), date })\<close>
  and \<open>fetch(url)\<close>: the object literal is allocated, \<open>buildUrl\<close> runs on it, and
  \<open>fetch\<close> is called with what it returned.
\<close>

definition buildUrl_then_fetch ::
  "jsstring option \<Rightarrow> jsstring \<Rightarrow> jsstring \<Rightarrow> jsstring \<Rightarrow> world \<Rightarrow> jsstring completion \<times> world" where
  "buildUrl_then_fetch API_KEY mode location date w =
     (let arg = length (heap w);
          w1 = w\<lparr>heap := heap w @ [Query mode (trim location) date]\<rparr>
      in case buildUrl_in API_KEY arg w1 of
           (Throw e, w2) \<Rightarrow> (Throw e, w2)
         | (Normal url, w2) \<Rightarrow> (Normal url, fetch_call url w2))"

section \<open>JSON values and the engine\<close>

text \<open>
  A parsed response body. \<open>'n\<close> is the type of numbers (IEEE doubles in the engine);
  an object is the list of its own properties, whose names are distinct.
\<close>

datatype 'n json =
    JNull
  | JBool bool
  | JNum 'n
  | JStr jsstring
  | JArr "'n json list"
  | JObj "(jsstring \<times> 'n json) list"

text \<open>
  What the program needs of the engine and does not fix itself: which numbers are zero
  (and so falsy), how a number is written as a string, and the messages of the two
  \<open>TypeError\<close>s that can be raised while a body is inspected.
\<close>

record 'n engine =
  num_is_zero :: "'n \<Rightarrow> bool"
  num_to_string :: "'n \<Rightarrow> jsstring"
  null_read_message :: jsstring
  to_primitive_message :: jsstring


text \<open>Truthiness; \<open>None\<close> is \<open>undefined\<close>.\<close>

fun truthy :: "'n engine \<Rightarrow> 'n json \<Rightarrow> bool" where
  "truthy E JNull = False"
| "truthy E (JBool b) = b"
| "truthy E (JNum n) = (\<not> num_is_zero E n)"
| "truthy E (JStr s) = (s \<noteq> [])"
| "truthy E (JArr xs) = True"
| "truthy E (JObj kvs) = True"

definition truthy_opt :: "'n engine \<Rightarrow> 'n json option \<Rightarrow> bool" where
  "truthy_opt E v = (case v of None \<Rightarrow> False | Some j \<Rightarrow> truthy E j)"

text \<open>
  Reading the property \<open>error\<close> or \<open>info\<close> of a value: no prototype defines either
  name, so only an object's own property is found; reading from \<open>null\<close> throws.
\<close>

definition get_property :: "'n engine \<Rightarrow> 'n json \<Rightarrow> jsstring \<Rightarrow> 'n json option completion" where
  "get_property E j name =
     (case j of
        JNull \<Rightarrow> Throw (null_read_message E)
      | JObj kvs \<Rightarrow> Normal (map_of kvs name)
      | _ \<Rightarrow> Normal None)"

text \<open>Optional chaining \<open>v?.name\<close>: \<open>undefined\<close> when \<open>v\<close> is \<open>undefined\<close> or \<open>null\<close>.\<close>

definition optional_property ::
  "'n engine \<Rightarrow> 'n json option \<Rightarrow> jsstring \<Rightarrow> 'n json option completion" where
  "optional_property E v name =
     (case v of
        None \<Rightarrow> Normal None
      | Some JNull \<Rightarrow> Normal None
      | Some j \<Rightarrow> get_property E j name)"

text \<open>
  \<open>ToString\<close>, which \<open>new Error(message)\<close> applies to its argument. An array is joined
  with commas, \<open>null\<close> elements giving the empty string; an object gives
  \<open>[object Object]\<close> unless it has an own property \<open>toString\<close>, which is then not
  callable, so that the conversion throws.
\<close>

fun ToString :: "'n engine \<Rightarrow> 'n json \<Rightarrow> jsstring completion"
  and join_elements :: "'n engine \<Rightarrow> 'n json list \<Rightarrow> jsstring completion" where
  "ToString E JNull = Normal (str ''null'')"
| "ToString E (JBool b) = Normal (if b then str ''true'' else str ''false'')"
| "ToString E (JNum n) = Normal (num_to_string E n)"
| "ToString E (JStr s) = Normal s"
| "ToString E (JArr xs) = join_elements E xs"
| "ToString E (JObj kvs) =
     (if str ''toString'' \<in> fst ` set kvs then Throw (to_primitive_message E)
      else Normal (str ''[object Object]''))"
| "join_elements E [] = Normal []"
| "join_elements E (x # xs) =
     (case (if x = JNull then Normal [] else ToString E x) of
        Throw m \<Rightarrow> Throw m
      | Normal a \<Rightarrow>
          if xs = [] then Normal a
          else (case join_elements E xs of
                  Throw m \<Rightarrow> Throw m
                | Normal b \<Rightarrow> Normal (a @ str '','' @ b)))"

section \<open>The component state\<close>

record 'n app_state =
  mode :: jsstring
  location :: jsstring
  date :: jsstring
  weatherData :: "'n json option"
  isLoading :: bool
  error :: jsstring

definition initial_state :: "'n app_state" where
  "initial_state =
     \<lparr>mode = MODES_CURRENT, location = [], date = [], weatherData = None,
      isLoading = False, error = []\<rparr>"

definition handleModeChange :: "jsstring \<Rightarrow> 'n app_state \<Rightarrow> 'n app_state" where
  "handleModeChange nextMode s = s\<lparr>mode := nextMode, weatherData := None, error := []\<rparr>"

section \<open>handleSubmit\<close>

definition missing_key_message :: jsstring where
  "missing_key_message =
     str ''Missing API key. Please set VITE_WEATHERSTACK_API_KEY in your .env file.''"

definition missing_location_message :: jsstring where
  \<open>missing_location_message = str ''Please enter a location (city name or "lat,lon").''\<close>

definition missing_date_message :: jsstring where
  "missing_date_message = str ''Please pick a historical date.''"

definition fetch_failed_message :: jsstring where
  "fetch_failed_message = str ''Failed to fetch weather data.''"

definition something_wrong_message :: jsstring where
  "something_wrong_message = str ''Something went wrong while fetching weather data.''"

text \<open>\<open>!API_KEY\<close>: the key is undefined or empty.\<close>

definition no_key :: "jsstring option \<Rightarrow> bool" where
  "no_key k = (case k of None \<Rightarrow> True | Some s \<Rightarrow> s = [])"

text \<open>
  The part of \<open>handleSubmit\<close> that runs before the first \<open>await\<close>: the new state, and
  the URL passed to \<open>fetch\<close> when \<open>fetch\<close> is called.
\<close>

definition handleSubmit_begin ::
  "jsstring option \<Rightarrow> 'n app_state \<Rightarrow> 'n app_state \<times> jsstring option" where
  "handleSubmit_begin API_KEY s =
     (if no_key API_KEY then (s\<lparr>error := missing_key_message\<rparr>, None)
      else if trim (location s) = [] then (s\<lparr>error := missing_location_message\<rparr>, None)
      else if mode s = MODES_HISTORICAL \<and> date s = [] then
        (s\<lparr>error := missing_date_message\<rparr>, None)
      else
        (s\<lparr>isLoading := True, error := [], weatherData := None\<rparr>,
         Some (buildUrl API_KEY (mode s) (trim (location s)) (date s))))"

text \<open>
  How the request ends: \<open>fetch\<close> rejects, or it resolves with a response whose \<open>ok\<close>
  flag tells a 2xx status and whose \<open>json()\<close> rejects or resolves with the parsed body.
\<close>

datatype 'n body = BodyRejected jsstring | BodyParsed "'n json"

datatype 'n fetch_result = FetchRejected jsstring | Response bool "'n body"

text \<open>
  The statements of the \<open>try\<close> block after the body has been parsed: the value handed to
  \<open>setWeatherData\<close>, or what is thrown.
\<close>

definition check_body :: "'n engine \<Rightarrow> bool \<Rightarrow> 'n json \<Rightarrow> 'n json completion" where
  "check_body E ok j =
     (case (if \<not> ok then Normal True
            else (case get_property E j (str ''error'') of
                    Throw m \<Rightarrow> Throw m
                  | Normal e \<Rightarrow> Normal (truthy_opt E e))) of
        Throw m \<Rightarrow> Throw m
      | Normal False \<Rightarrow> Normal j
      | Normal True \<Rightarrow>
          (case get_property E j (str ''error'') of
             Throw m \<Rightarrow> Throw m
           | Normal e \<Rightarrow>
               (case optional_property E e (str ''info'') of
                  Throw m \<Rightarrow> Throw m
                | Normal info \<Rightarrow>
                    (case (case info of
                             None \<Rightarrow> Normal fetch_failed_message
                           | Some i \<Rightarrow> if truthy E i then ToString E i
                                       else Normal fetch_failed_message) of
                       Throw m \<Rightarrow> Throw m
                     | Normal message \<Rightarrow> Throw message))))"

text \<open>The \<open>catch\<close> block.\<close>

definition catch_block :: "jsstring \<Rightarrow> 'n app_state \<Rightarrow> 'n app_state" where
  "catch_block message s =
     s\<lparr>error := (if message \<noteq> [] then message else something_wrong_message)\<rparr>"

text \<open>The part of \<open>handleSubmit\<close> that runs once the request has ended, \<open>finally\<close> included.\<close>

definition handleSubmit_settle :: "'n engine \<Rightarrow> 'n app_state \<Rightarrow> 'n fetch_result \<Rightarrow> 'n app_state" where
  "handleSubmit_settle E s r =
     (let s' =
        (case r of
           FetchRejected m \<Rightarrow> catch_block m s
         | Response ok b \<Rightarrow>
             (case b of
                BodyRejected m \<Rightarrow> catch_block m s
              | BodyParsed j \<Rightarrow>
                  (case check_body E ok j of
                     Throw m \<Rightarrow> catch_block m s
                   | Normal v \<Rightarrow> s\<lparr>weatherData := Some v\<rparr>)))
      in s'\<lparr>isLoading := False\<rparr>)"

text \<open>
  One call of \<open>handleSubmit\<close> from submission to the end, with nothing else happening in
  between: \<open>fetch\<close> tells how the request to a URL ends. The result is the final state
  and the URLs \<open>fetch\<close> was called with.
\<close>

definition handleSubmit ::
  "jsstring option \<Rightarrow> 'n engine \<Rightarrow> (jsstring \<Rightarrow> 'n fetch_result) \<Rightarrow> 'n app_state \<Rightarrow>
     'n app_state \<times> jsstring list" where
  "handleSubmit API_KEY E fetch s =
     (case handleSubmit_begin API_KEY s of
        (s', None) \<Rightarrow> (s', [])
      | (s', Some url) \<Rightarrow> (handleSubmit_settle E s' (fetch url), [url]))"

section \<open>The running component\<close>

text \<open>
  The component between events. \<open>in_flight\<close> holds the URLs of the requests that
  \<open>fetch\<close> has been called with and that have not ended yet. The user can switch the
  mode, edit the location (by typing or by a quick-location chip) and the date at any
  time; the submit button is disabled while \<open>isLoading\<close> holds, so \<open>Submit\<close> is not
  possible then; \<open>Settle\<close> is the end of the oldest request in flight.
\<close>

record 'n app =
  ui :: "'n app_state"
  in_flight :: "jsstring list"

datatype 'n event =
    ModeChange jsstring
  | LocationInput jsstring
  | DateInput jsstring
  | Submit
  | Settle "'n fetch_result"

definition initial_app :: "'n app" where
  "initial_app = \<lparr>ui = initial_state, in_flight = []\<rparr>"

fun step :: "jsstring option \<Rightarrow> 'n engine \<Rightarrow> 'n app \<Rightarrow> 'n event \<Rightarrow> 'n app option" where
  "step K E a (ModeChange m) = Some (a\<lparr>ui := handleModeChange m (ui a)\<rparr>)"
| "step K E a (LocationInput v) = Some (a\<lparr>ui := (ui a)\<lparr>location := v\<rparr>\<rparr>)"
| "step K E a (DateInput v) = Some (a\<lparr>ui := (ui a)\<lparr>date := v\<rparr>\<rparr>)"
| "step K E a Submit =
     (if isLoading (ui a) then None
      else (case handleSubmit_begin K (ui a) of
              (s', None) \<Rightarrow> Some (a\<lparr>ui := s'\<rparr>)
            | (s', Some url) \<Rightarrow> Some \<lparr>ui = s', in_flight = in_flight a @ [url]\<rparr>))"
| "step K E a (Settle r) =
     (case in_flight a of
        [] \<Rightarrow> None
      | url # rest \<Rightarrow> Some \<lparr>ui = handleSubmit_settle E (ui a) r, in_flight = rest\<rparr>)"

fun run :: "jsstring option \<Rightarrow> 'n engine \<Rightarrow> 'n app \<Rightarrow> 'n event list \<Rightarrow> 'n app option" where
  "run K E a [] = Some a"
| "run K E a (e # es) = (case step K E a e of None \<Rightarrow> None | Some a' \<Rightarrow> run K E a' es)"

section \<open>Reading a URL back\<close>

text \<open>
  What the receiver of a request sees, after the URL standard. The URL arrives as its
  bytes; the path runs from the first \<open>/\<close> after the host to the \<open>?\<close>; the query runs
  from there to a \<open>#\<close> or the end and is read by the application/x-www-form-urlencoded
  parser, which decodes names and values from UTF-8.
\<close>

definition pathname_bytes :: "string \<Rightarrow> string" where
  "pathname_bytes u =
     (let no_fragment = takeWhile (\<lambda>c. c \<noteq> CHR ''#'') u;
          after_scheme = drop (length ''https://'') no_fragment;
          after_host = dropWhile (\<lambda>c. c \<noteq> CHR ''/'' \<and> c \<noteq> CHR ''?'') after_scheme
      in takeWhile (\<lambda>c. c \<noteq> CHR ''?'') after_host)"

definition search_bytes :: "string \<Rightarrow> string" where
  "search_bytes u =
     (let no_fragment = takeWhile (\<lambda>c. c \<noteq> CHR ''#'') u
      in drop 1 (dropWhile (\<lambda>c. c \<noteq> CHR ''?'') no_fragment))"

definition hex_value :: "char \<Rightarrow> nat option" where
  "hex_value c =
     (let n = (of_char c :: nat) in
      if 0x30 \<le> n \<and> n \<le> 0x39 then Some (n - 0x30)
      else if 0x41 \<le> n \<and> n \<le> 0x46 then Some (n - 0x37)
      else if 0x61 \<le> n \<and> n \<le> 0x66 then Some (n - 0x57)
      else None)"

fun percent_decode :: "string \<Rightarrow> string" where
  "percent_decode (c # a # b # s) =
     (case (hex_value a, hex_value b) of
        (Some h, Some l) \<Rightarrow>
          if c = CHR ''%'' then char_of (16 * h + l) # percent_decode s
          else c # percent_decode (a # b # s)
      | _ \<Rightarrow> c # percent_decode (a # b # s))"
| "percent_decode (c # s) = c # percent_decode s"
| "percent_decode [] = []"

definition plus_to_space :: "string \<Rightarrow> string" where
  "plus_to_space s = map (\<lambda>c. if c = CHR ''+'' then CHR '' '' else c) s"

fun split_on :: "char \<Rightarrow> string \<Rightarrow> string list" where
  "split_on d [] = [[]]"
| "split_on d (c # s) =
     (if c = d then [] # split_on d s
      else (case split_on d s of [] \<Rightarrow> [[c]] | piece # pieces \<Rightarrow> (c # piece) # pieces))"

text \<open>
  The UTF-8 decoder: a byte that cannot start or continue a code point gives U+FFFD,
  and decoding goes on at the byte that did not fit.
\<close>

definition continues :: "nat \<Rightarrow> nat \<Rightarrow> char \<Rightarrow> bool" where
  "continues lo hi c = (lo \<le> (of_char c :: nat) \<and> (of_char c :: nat) \<le> hi)"

definition low_bits :: "char \<Rightarrow> nat" where
  "low_bits c = (of_char c :: nat) - 0x80"

function utf8_decode :: "string \<Rightarrow> nat list" where
  "utf8_decode [] = []"
| "utf8_decode (b # bs) =
     (let n = (of_char b :: nat) in
      if n < 0x80 then n # utf8_decode bs
      else if 0xC2 \<le> n \<and> n \<le> 0xDF then
        (case bs of
           [] \<Rightarrow> [0xFFFD]
         | c1 # r1 \<Rightarrow>
             if continues 0x80 0xBF c1
             then ((n - 0xC0) * 64 + low_bits c1) # utf8_decode r1
             else 0xFFFD # utf8_decode bs)
      else if 0xE0 \<le> n \<and> n \<le> 0xEF then
        (case bs of
           [] \<Rightarrow> [0xFFFD]
         | c1 # r1 \<Rightarrow>
             if continues (if n = 0xE0 then 0xA0 else 0x80) (if n = 0xED then 0x9F else 0xBF) c1
             then (case r1 of
                     [] \<Rightarrow> [0xFFFD]
                   | c2 # r2 \<Rightarrow>
                       if continues 0x80 0xBF c2
                       then ((n - 0xE0) * 4096 + low_bits c1 * 64 + low_bits c2) # utf8_decode r2
                       else 0xFFFD # utf8_decode r1)
             else 0xFFFD # utf8_decode bs)
      else if 0xF0 \<le> n \<and> n \<le> 0xF4 then
        (case bs of
           [] \<Rightarrow> [0xFFFD]
         | c1 # r1 \<Rightarrow>
             if continues (if n = 0xF0 then 0x90 else 0x80) (if n = 0xF4 then 0x8F else 0xBF) c1
             then (case r1 of
                     [] \<Rightarrow> [0xFFFD]
                   | c2 # r2 \<Rightarrow>
                       if continues 0x80 0xBF c2
                       then (case r2 of
                               [] \<Rightarrow> [0xFFFD]
                             | c3 # r3 \<Rightarrow>
                                 if continues 0x80 0xBF c3
                                 then ((n - 0xF0) * 262144 + low_bits c1 * 4096 +
                                       low_bits c2 * 64 + low_bits c3) # utf8_decode r3
                                 else 0xFFFD # utf8_decode r2)
                       else 0xFFFD # utf8_decode r1)
             else 0xFFFD # utf8_decode bs)
      else 0xFFFD # utf8_decode bs)"
  by pat_completeness auto
termination
  by (relation "measure length") auto

declare utf8_decode.simps [simp del]

definition utf8_text :: "string \<Rightarrow> jsstring" where
  "utf8_text bs = utf16_encode (utf8_decode bs)"

definition urlencoded_pair :: "string \<Rightarrow> jsstring \<times> jsstring" where
  "urlencoded_pair piece =
     (let name = takeWhile (\<lambda>c. c \<noteq> CHR ''='') piece;
          v = drop 1 (dropWhile (\<lambda>c. c \<noteq> CHR ''='') piece)
      in (utf8_text (percent_decode (plus_to_space name)),
          utf8_text (percent_decode (plus_to_space v))))"

definition urlencoded_parse :: "string \<Rightarrow> params" where
  "urlencoded_parse q = map urlencoded_pair (filter (\<lambda>piece. piece \<noteq> []) (split_on CHR ''&'' q))"

definition url_pathname :: "jsstring \<Rightarrow> jsstring" where
  "url_pathname u = utf8_text (pathname_bytes (utf8_bytes u))"

definition url_searchParams :: "jsstring \<Rightarrow> params" where
  "url_searchParams u = urlencoded_parse (search_bytes (utf8_bytes u))"

definition getAll :: "params \<Rightarrow> jsstring \<Rightarrow> jsstring list" where
  "getAll ps name = map snd (filter (\<lambda>p. fst p = name) ps)"

section \<open>Notions used in the claims\<close>

text \<open>A string is well formed when it has no surrogate outside a pair.\<close>

fun well_formed :: "jsstring \<Rightarrow> bool" where
  "well_formed [] = True"
| "well_formed [u] = (\<not> is_surrogate u)"
| "well_formed (u # v # s) =
     (if is_high u \<and> is_low v then well_formed s
      else \<not> is_surrogate u \<and> well_formed (v # s))"

text \<open>A string is blank when it is empty or made of white-space code points only.\<close>

definition blank :: "jsstring \<Rightarrow> bool" where
  "blank s = list_all is_ws s"

text \<open>\<open>URLSearchParams.has\<close>.\<close>

definition has :: "params \<Rightarrow> jsstring \<Rightarrow> bool" where
  "has ps name = (getAll ps name \<noteq> [])"


text \<open>What the spec calls a failed request.\<close>

definition request_failed :: "'n engine \<Rightarrow> 'n fetch_result \<Rightarrow> bool" where
  "request_failed E r =
     (case r of
        FetchRejected m \<Rightarrow> True
      | Response ok b \<Rightarrow>
          (case b of
             BodyRejected m \<Rightarrow> True
           | BodyParsed j \<Rightarrow>
               \<not> ok \<or> (case get_property E j (str ''error'') of
                          Throw m \<Rightarrow> True
                        | Normal e \<Rightarrow> truthy_opt E e)))"

text \<open>A body with a top-level \<open>error\<close> field.\<close>

definition has_error_field :: "'n json \<Rightarrow> bool" where
  "has_error_field j =
     (case j of JObj kvs \<Rightarrow> map_of kvs (str ''error'') \<noteq> None | _ \<Rightarrow> False)"

text \<open>The \<open>info\<close> of an \<open>error\<close> value, when it has one.\<close>

definition info_of :: "'n json \<Rightarrow> 'n json option" where
  "info_of e = (case e of JObj kvs \<Rightarrow> map_of kvs (str ''info'') | _ \<Rightarrow> None)"

section \<open>Notions used in the proofs\<close>

text \<open>The scalar values of Unicode: the code points that are no surrogates.\<close>

definition scalar_value :: "nat \<Rightarrow> bool" where
  "scalar_value cp = (cp < 0x110000 \<and> \<not> (0xD800 \<le> cp \<and> cp \<le> 0xDFFF))"

text \<open>The bytes below 0x80.\<close>

definition ascii :: "char \<Rightarrow> bool" where
  "ascii c = ((of_char c :: nat) < 0x80)"

text \<open>The bytes a serialised component is made of.\<close>

definition url_char :: "char \<Rightarrow> bool" where
  "url_char c = (is_urlencoded_safe c \<or> c = CHR ''+'' \<or> c = CHR ''%'')"

text \<open>One serialised pair.\<close>

definition pair_string :: "string \<times> string \<Rightarrow> string" where
  "pair_string p = urlencoded_string (fst p) @ ''='' @ urlencoded_string (snd p)"

text \<open>The endpoint, the parameters and the bytes of the URL that \<open>buildUrl\<close> returns.\<close>

definition endpoint_of :: "jsstring \<Rightarrow> string" where
  "endpoint_of m =
     (if m = MODES_MARINE then ''marine''
      else if m = MODES_HISTORICAL then ''historical'' else ''current'')"

definition params_of :: "jsstring option \<Rightarrow> jsstring \<Rightarrow> jsstring \<Rightarrow> jsstring \<Rightarrow> params" where
  "params_of API_KEY m loc d =
     [(str ''access_key'', toUSVString (or_empty API_KEY)), (str ''query'', toUSVString loc)] @
     (if m = MODES_HISTORICAL \<and> d \<noteq> [] then [(str ''historical_date'', toUSVString d)] else [])"

definition url_bytes :: "jsstring option \<Rightarrow> jsstring \<Rightarrow> jsstring \<Rightarrow> jsstring \<Rightarrow> string" where
  "url_bytes API_KEY m loc d =
     ''https://api.weatherstack.com/'' @ endpoint_of m @ ''?'' @
     urlencoded_serialize
       (map (\<lambda>p. (utf8_bytes (fst p), utf8_bytes (snd p))) (params_of API_KEY m loc d))"

text \<open>
  The invariant of the running component. Nothing is in flight and \<open>isLoading\<close> is
  false, or one request is in flight, \<open>isLoading\<close> is true and neither an error nor a
  result is set. With no credential there is never a result nor a request. When an error and a result
  are both set, the error is the message of a missing location or of a missing date.
\<close>

definition settled_or_waiting :: "'n app \<Rightarrow> bool" where
  "settled_or_waiting a =
     (case in_flight a of
        [] \<Rightarrow> \<not> isLoading (ui a)
      | url # rest \<Rightarrow>
          rest = [] \<and> isLoading (ui a) \<and> error (ui a) = [] \<and> weatherData (ui a) = None)"

definition consistent :: "jsstring option \<Rightarrow> 'n app \<Rightarrow> bool" where
  "consistent K a =
     (settled_or_waiting a \<and>
      (no_key K \<longrightarrow> weatherData (ui a) = None \<and> in_flight a = []) \<and>
      (weatherData (ui a) \<noteq> None \<and> error (ui a) \<noteq> [] \<longrightarrow>
         error (ui a) = missing_location_message \<or> error (ui a) = missing_date_message))"

section \<open>Sample inputs\<close>

text \<open>An engine whose numbers are carried as their decimal text.\<close>

definition text_is_zero :: "jsstring \<Rightarrow> bool" where
  "text_is_zero n = (n = str ''0'' \<or> n = str ''-0'')"

definition text_to_string :: "jsstring \<Rightarrow> jsstring" where
  "text_to_string n = n"

definition sample_engine :: "jsstring engine" where
  "sample_engine =
     \<lparr>num_is_zero = text_is_zero, num_to_string = text_to_string,
      null_read_message = str ''Cannot read properties of null'',
      to_primitive_message = str ''Cannot convert object to primitive value''\<rparr>"

definition offline :: "jsstring \<Rightarrow> jsstring fetch_result" where
  "offline url = FetchRejected (str ''Failed to fetch'')"

definition london_body :: "jsstring json" where
  "london_body =
     JObj [(str ''location'',
            JObj [(str ''name'', JStr (str ''London'')), (str ''country'', JStr (str ''UK''))]),
           (str ''current'',
            JObj [(str ''temperature'', JNum (str ''18'')), (str ''humidity'', JNum (str ''60''))])]"


definition invalid_key_body :: "jsstring json" where
  "invalid_key_body =
     JObj [(str ''error'', JObj [(str ''info'', JStr (str ''invalid access key''))])]"

definition answers_invalid_key :: "jsstring \<Rightarrow> jsstring fetch_result" where
  "answers_invalid_key url = Response True (BodyParsed invalid_key_body)"

definition false_error_body :: "jsstring json" where
  "false_error_body = JObj [(str ''error'', JBool False)]"

definition answers_false_error :: "jsstring \<Rightarrow> jsstring fetch_result" where
  "answers_false_error url = Response True (BodyParsed false_error_body)"

definition london_state :: "jsstring app_state" where
  "london_state = initial_state\<lparr>location := str '' London ''\<rparr>"

definition shown_london_state :: "jsstring app_state" where
  "shown_london_state = initial_state\<lparr>weatherData := Some london_body\<rparr>"

definition historical_state :: "jsstring app_state" where
  "historical_state = initial_state\<lparr>mode := MODES_HISTORICAL, location := str ''London''\<rparr>"

section \<open>Code units, code points and USVStrings\<close>

lemma unat_of_nat16: "n < 65536 \<Longrightarrow> unat (of_nat n :: 16 word) = n"
  by (simp add: unat_of_nat)

lemma of_nat_unat16: "(of_nat (unat u) :: 16 word) = u"
  by simp

lemma unat_lt16: "unat (u :: 16 word) < 65536"
  using unsigned_less [of u, where 'a = nat] by simp

lemma of_char_lt_256: "(of_char c :: nat) < 256"
  by (cases c) simp

lemma unat_unit_of_char: "unat (unit_of_char c) = of_char c"
proof -
  have "(of_char c :: nat) < 65536"
    by (rule less_trans [OF of_char_lt_256]) simp
  then show ?thesis
    unfolding unit_of_char_def by (rule unat_of_nat16)
qed

lemma unit_of_char_eq_iff: "unit_of_char a = unit_of_char b \<longleftrightarrow> a = b"
proof
  assume "unit_of_char a = unit_of_char b"
  then have "unat (unit_of_char a) = unat (unit_of_char b)" by simp
  then have "(of_char a :: nat) = of_char b" by (simp add: unat_unit_of_char)
  then show "a = b" by simp
qed simp

lemma str_append: "str (a @ b) = str a @ str b"
  by (simp add: str_def)

lemma str_eq_iff: "str a = str b \<longleftrightarrow> a = b"
proof -
  have "inj unit_of_char" by (rule injI) (simp add: unit_of_char_eq_iff)
  then show ?thesis by (simp add: str_def inj_map_eq_map)
qed

lemma str_Nil_iff: "str a = [] \<longleftrightarrow> a = []"
  by (simp add: str_def)

lemma unit_of_char_not_surrogate: "\<not> is_surrogate (unit_of_char c)"
  unfolding is_surrogate_def is_high_def is_low_def unat_unit_of_char
  using of_char_lt_256 [of c] by arith

lemma code_points_single:
  "\<not> is_surrogate u \<Longrightarrow> code_points (u # s) = unat u # code_points s"
  by (cases s) (simp_all add: single_code_point_def is_surrogate_def)

lemma code_points_str: "code_points (str x) = map of_char x"
proof (induction x)
  case Nil
  then show ?case by (simp add: str_def)
next
  case (Cons c x)
  have "code_points (unit_of_char c # str x) = unat (unit_of_char c) # code_points (str x)"
    by (rule code_points_single) (rule unit_of_char_not_surrogate)
  with Cons show ?case by (simp add: str_def unat_unit_of_char)
qed

lemma utf16_units_of_char: "utf16_units (of_char c) = [unit_of_char c]"
proof -
  have "(of_char c :: nat) < 65536"
    by (rule less_trans [OF of_char_lt_256]) simp
  then show ?thesis by (simp add: utf16_units_def unit_of_char_def)
qed

lemma utf16_encode_of_char: "utf16_encode (map of_char x) = str x"
  by (induction x) (simp_all add: utf16_encode_def str_def utf16_units_of_char)

lemma toUSVString_str: "toUSVString (str x) = str x"
  by (simp add: toUSVString_def code_points_str utf16_encode_of_char)

lemma single_code_point_scalar: "scalar_value (single_code_point u)"
  using unat_lt16 [of u]
  by (auto simp: single_code_point_def scalar_value_def is_surrogate_def is_high_def is_low_def)

lemma pair_code_point_bounds:
  assumes "is_high u" and "is_low v"
  shows "0x10000 \<le> pair_code_point u v" and "pair_code_point u v < 0x110000"
  using assms unfolding pair_code_point_def is_high_def is_low_def by arith+

lemma pair_code_point_scalar: "is_high u \<Longrightarrow> is_low v \<Longrightarrow> scalar_value (pair_code_point u v)"
  using pair_code_point_bounds [of u v] by (simp add: scalar_value_def)

lemma code_points_scalar: "list_all scalar_value (code_points s)"
  by (induction s rule: code_points.induct)
    (simp_all add: single_code_point_scalar pair_code_point_scalar)

lemma utf16_units_pair:
  assumes "is_high u" and "is_low v"
  shows "utf16_units (pair_code_point u v) = [u, v]"
proof -
  let ?h = "unat u - 0xD800" and ?l = "unat v - 0xDC00"
  from assms have h: "0xD800 \<le> unat u" "?h < 0x400" and l: "0xDC00 \<le> unat v" "?l < 0x400"
    unfolding is_high_def is_low_def by arith+
  have off: "pair_code_point u v - 0x10000 = ?h * 0x400 + ?l"
    by (simp add: pair_code_point_def)
  have dm: "(a * 0x400 + b) div 0x400 = a \<and> (a * 0x400 + b) mod 0x400 = b"
    if "b < 0x400" for a b :: nat
    using that by simp
  note dm' = dm [OF l(2), of ?h]
  have d: "(?h * 0x400 + ?l) div 0x400 = ?h" by (rule conjunct1 [OF dm'])
  have m: "(?h * 0x400 + ?l) mod 0x400 = ?l" by (rule conjunct2 [OF dm'])
  from h have hu: "0xD800 + ?h = unat u" by simp
  from l have lv: "0xDC00 + ?l = unat v" by simp
  from pair_code_point_bounds [OF assms] have "\<not> pair_code_point u v < 0x10000" by simp
  then show ?thesis
    unfolding utf16_units_def off d m hu lv by simp
qed

lemma utf16_units_single: "\<not> is_surrogate u \<Longrightarrow> utf16_units (unat u) = [u]"
  using unat_lt16 [of u] by (simp add: utf16_units_def)

lemma well_formed_toUSVString: "well_formed s \<Longrightarrow> toUSVString s = s"
proof (induction s rule: code_points.induct)
  case 1
  then show ?case by (simp add: toUSVString_def utf16_encode_def)
next
  case (2 u)
  then show ?case
    by (simp add: toUSVString_def utf16_encode_def single_code_point_def utf16_units_single)
next
  case (3 u v s)
  show ?case
  proof (cases "is_high u \<and> is_low v")
    case True
    with 3 show ?thesis
      by (simp add: toUSVString_def utf16_encode_def utf16_units_pair)
  next
    case False
    then have c: "code_points (u # v # s) = single_code_point u # code_points (v # s)"
      by (simp del: de_Morgan_conj)
    from False "3.prems" have w: "\<not> is_surrogate u" "well_formed (v # s)"
      by (simp_all del: de_Morgan_conj)
    from "3.IH"(2) [OF False w(2)] have "toUSVString (v # s) = v # s" .
    with w(1) show ?thesis
      unfolding toUSVString_def utf16_encode_def c
      by (simp add: single_code_point_def utf16_units_single)
  qed
qed

lemma utf16_units_replacement: "utf16_units 0xFFFD = [0xFFFD]"
  by (simp add: utf16_units_def)

lemma replacement_not_surrogate: "\<not> is_surrogate 0xFFFD"
  by (simp add: is_surrogate_def is_high_def is_low_def)

lemma utf16_units_single_code_point:
  "utf16_units (single_code_point u) = [if is_surrogate u then 0xFFFD else u]"
  by (simp add: single_code_point_def utf16_units_replacement utf16_units_single)

lemma toUSVString_well_formed: "toUSVString s = s \<Longrightarrow> well_formed s"
proof (induction s rule: code_points.induct)
  case 1
  then show ?case by simp
next
  case (2 u)
  then have "(if is_surrogate u then 0xFFFD else u) = u"
    by (simp add: toUSVString_def utf16_encode_def utf16_units_single_code_point)
  then have "\<not> is_surrogate u"
    using replacement_not_surrogate by (auto split: if_splits)
  then show ?case by simp
next
  case (3 u v s)
  show ?case
  proof (cases "is_high u \<and> is_low v")
    case True
    with 3 show ?thesis
      by (simp add: toUSVString_def utf16_encode_def utf16_units_pair)
  next
    case False
    then have c: "code_points (u # v # s) = single_code_point u # code_points (v # s)"
      by (simp del: de_Morgan_conj)
    from "3.prems" have eq: "(if is_surrogate u then 0xFFFD else u) = u"
      and rest: "toUSVString (v # s) = v # s"
      unfolding toUSVString_def utf16_encode_def c
      by (simp_all add: utf16_units_single_code_point)
    from eq have "\<not> is_surrogate u"
      using replacement_not_surrogate by (auto split: if_splits)
    moreover from "3.IH"(2) [OF False rest] have "well_formed (v # s)" .
    ultimately show ?thesis using False by (simp del: de_Morgan_conj)
  qed
qed

lemma well_formed_iff: "well_formed s \<longleftrightarrow> toUSVString s = s"
  using well_formed_toUSVString toUSVString_well_formed by blast

lemma code_points_utf16_units:
  assumes "scalar_value cp"
  shows "code_points (utf16_units cp @ s) = cp # code_points s"
proof (cases "cp < 0x10000")
  case True
  let ?u = "of_nat cp :: 16 word"
  from True have u: "unat ?u = cp" by (simp add: unat_of_nat16)
  with assms have "\<not> is_surrogate ?u"
    by (auto simp: scalar_value_def is_surrogate_def is_high_def is_low_def)
  from code_points_single [OF this, of s] u True show ?thesis
    by (simp add: utf16_units_def)
next
  case False
  define h where "h = 0xD800 + (cp - 0x10000) div 0x400"
  define l where "l = 0xDC00 + (cp - 0x10000) mod 0x400"
  from assms False have hb: "0xD800 \<le> h" "h \<le> 0xDBFF"
    unfolding scalar_value_def h_def by arith+
  have lb: "0xDC00 \<le> l" "l \<le> 0xDFFF"
    unfolding l_def by arith+
  from hb have uh: "unat (of_nat h :: 16 word) = h" by (simp add: unat_of_nat16)
  from lb have ul: "unat (of_nat l :: 16 word) = l" by (simp add: unat_of_nat16)
  from hb uh have hi: "is_high (of_nat h)" by (simp add: is_high_def)
  from lb ul have lo: "is_low (of_nat l)" by (simp add: is_low_def)
  have "pair_code_point (of_nat h) (of_nat l) = 0x10000 + (h - 0xD800) * 0x400 + (l - 0xDC00)"
    unfolding pair_code_point_def uh ul ..
  also have "\<dots> = 0x10000 + ((cp - 0x10000) div 0x400 * 0x400 + (cp - 0x10000) mod 0x400)"
    by (simp add: h_def l_def)
  also have "\<dots> = 0x10000 + (cp - 0x10000)"
    by (simp only: div_mult_mod_eq)
  also from False have "\<dots> = cp" by simp
  finally have "pair_code_point (of_nat h) (of_nat l) = cp" .
  with hi lo have "code_points (of_nat h # of_nat l # s) = cp # code_points s"
    by simp
  moreover from False have "utf16_units cp = [of_nat h, of_nat l]"
    unfolding utf16_units_def h_def l_def by (simp only: if_False)
  ultimately show ?thesis by simp
qed

lemma code_points_utf16_encode:
  "list_all scalar_value cps \<Longrightarrow> code_points (utf16_encode cps) = cps"
proof (induction cps)
  case Nil
  then show ?case by (simp add: utf16_encode_def)
next
  case (Cons cp cps)
  then have "code_points (utf16_units cp @ utf16_encode cps) = cp # code_points (utf16_encode cps)"
    by (simp add: code_points_utf16_units)
  with Cons show ?case by (simp add: utf16_encode_def)
qed

lemma code_points_toUSVString: "code_points (toUSVString s) = code_points s"
  by (simp add: toUSVString_def code_points_utf16_encode code_points_scalar)

lemma toUSVString_idem: "toUSVString (toUSVString s) = toUSVString s"
  by (simp add: toUSVString_def code_points_utf16_encode code_points_scalar)

lemma utf8_bytes_toUSVString: "utf8_bytes (toUSVString s) = utf8_bytes s"
  by (simp add: utf8_bytes_def code_points_toUSVString)

lemma utf16_units_nonempty: "utf16_units cp \<noteq> []"
  by (simp add: utf16_units_def)

lemma code_points_Nil_iff: "code_points s = [] \<longleftrightarrow> s = []"
  by (cases s rule: code_points.cases) simp_all

lemma toUSVString_Nil_iff: "toUSVString s = [] \<longleftrightarrow> s = []"
  by (simp add: toUSVString_def utf16_encode_def utf16_units_nonempty code_points_Nil_iff)

section \<open>UTF-8 decodes what it encodes\<close>

lemma of_char_char_of: "n < 256 \<Longrightarrow> (of_char (char_of n) :: nat) = n"
  by simp

lemma utf8_decode_1:
  assumes "n < 0x80"
  shows "utf8_decode (char_of n # rest) = n # utf8_decode rest"
proof -
  from assms have "(of_char (char_of n) :: nat) = n" by simp
  with assms show ?thesis by (subst utf8_decode.simps) (simp add: Let_def)
qed

lemma utf8_decode_2:
  assumes "0xC2 \<le> b0" "b0 \<le> 0xDF" "0x80 \<le> b1" "b1 \<le> 0xBF"
  shows "utf8_decode (char_of b0 # char_of b1 # rest) =
           ((b0 - 0xC0) * 64 + (b1 - 0x80)) # utf8_decode rest"
proof -
  from assms have "(of_char (char_of b0) :: nat) = b0" "(of_char (char_of b1) :: nat) = b1"
    by simp_all
  with assms show ?thesis
    by (subst utf8_decode.simps) (simp add: Let_def continues_def low_bits_def)
qed

lemma utf8_decode_3:
  assumes "0xE0 \<le> b0" "b0 \<le> 0xEF"
    and "(if b0 = 0xE0 then 0xA0 else 0x80) \<le> b1" "b1 \<le> (if b0 = 0xED then 0x9F else 0xBF)"
    and "0x80 \<le> b2" "b2 \<le> 0xBF"
  shows "utf8_decode (char_of b0 # char_of b1 # char_of b2 # rest) =
           ((b0 - 0xE0) * 4096 + (b1 - 0x80) * 64 + (b2 - 0x80)) # utf8_decode rest"
proof -
  from assms(4) have "b1 \<le> 0xBF" by (simp split: if_splits)
  with assms have "(of_char (char_of b0) :: nat) = b0" "(of_char (char_of b1) :: nat) = b1"
    "(of_char (char_of b2) :: nat) = b2"
    by simp_all
  with assms show ?thesis
    by (subst utf8_decode.simps) (simp add: Let_def continues_def low_bits_def)
qed

lemma utf8_decode_4:
  assumes "0xF0 \<le> b0" "b0 \<le> 0xF4"
    and "(if b0 = 0xF0 then 0x90 else 0x80) \<le> b1" "b1 \<le> (if b0 = 0xF4 then 0x8F else 0xBF)"
    and "0x80 \<le> b2" "b2 \<le> 0xBF" and "0x80 \<le> b3" "b3 \<le> 0xBF"
  shows "utf8_decode (char_of b0 # char_of b1 # char_of b2 # char_of b3 # rest) =
           ((b0 - 0xF0) * 262144 + (b1 - 0x80) * 4096 + (b2 - 0x80) * 64 + (b3 - 0x80)) #
           utf8_decode rest"
proof -
  from assms(4) have "b1 \<le> 0xBF" by (simp split: if_splits)
  with assms have "(of_char (char_of b0) :: nat) = b0" "(of_char (char_of b1) :: nat) = b1"
    "(of_char (char_of b2) :: nat) = b2" "(of_char (char_of b3) :: nat) = b3"
    by simp_all
  with assms show ?thesis
    by (subst utf8_decode.simps) (simp add: Let_def continues_def low_bits_def)
qed

lemma split_64: "(n::nat) div 64 * 64 + n mod 64 = n"
  by simp

lemma div_4096: "(n::nat) div 4096 = n div 64 div 64"
  by (simp add: div_mult2_eq [symmetric])

lemma div_262144: "(n::nat) div 262144 = n div 64 div 64 div 64"
  by (simp add: div_mult2_eq [symmetric])

lemma utf8_decode_encode:
  assumes "scalar_value cp"
  shows "utf8_decode (utf8_encode cp @ rest) = cp # utf8_decode rest"
proof -
  consider "cp < 0x80" | "0x80 \<le> cp" "cp < 0x800" | "0x800 \<le> cp" "cp < 0x10000"
    | "0x10000 \<le> cp"
    by linarith
  then show ?thesis
  proof cases
    case 1
    then show ?thesis by (simp add: utf8_encode_def utf8_decode_1)
  next
    case 2
    define x where "x = cp div 64"
    define c where "c = cp mod 64"
    have cp: "cp = x * 64 + c" by (simp add: x_def c_def)
    have c: "c < 64" by (simp add: c_def)
    from 2 have x: "2 \<le> x" "x < 32" unfolding x_def by simp_all
    from 2 have enc: "utf8_encode cp = [char_of (0xC0 + x), char_of (0x80 + c)]"
      by (simp add: utf8_encode_def x_def c_def)
    from x c have "utf8_decode (char_of (0xC0 + x) # char_of (0x80 + c) # rest) =
        ((0xC0 + x - 0xC0) * 64 + (0x80 + c - 0x80)) # utf8_decode rest"
      by (intro utf8_decode_2) simp_all
    with enc cp show ?thesis by simp
  next
    case 3
    define y where "y = cp div 64"
    define c where "c = cp mod 64"
    define a where "a = y div 64"
    define b where "b = y mod 64"
    have cp: "cp = (a * 64 + b) * 64 + c" by (simp add: y_def c_def a_def b_def)
    have bc: "b < 64" "c < 64" by (simp_all add: b_def c_def)
    from 3 have y: "32 \<le> y" "y < 1024" unfolding y_def by simp_all
    then have a: "a < 16" unfolding a_def by simp
    from 3 have enc: "utf8_encode cp = [char_of (0xE0 + a), char_of (0x80 + b), char_of (0x80 + c)]"
      by (simp add: utf8_encode_def div_4096 y_def c_def a_def b_def)
    have y_ab: "y = a * 64 + b" by (simp add: a_def b_def)
    have lo: "(if 0xE0 + a = 0xE0 then 0xA0 else 0x80) \<le> 0x80 + b"
    proof (cases "a = 0")
      case True
      with y y_ab show ?thesis by simp
    next
      case False
      then show ?thesis by simp
    qed
    have hi: "0x80 + b \<le> (if 0xE0 + a = 0xED then 0x9F else 0xBF)"
    proof (cases "a = 13")
      case True
      from cp True bc have "cp \<le> 0xDFFF" by simp
      with assms have "cp < 0xD800" by (simp add: scalar_value_def)
      with cp True have "b < 32" by simp
      with True show ?thesis by simp
    next
      case False
      with bc show ?thesis by simp
    qed
    from a bc lo hi
    have "utf8_decode (char_of (0xE0 + a) # char_of (0x80 + b) # char_of (0x80 + c) # rest) =
        ((0xE0 + a - 0xE0) * 4096 + (0x80 + b - 0x80) * 64 + (0x80 + c - 0x80)) # utf8_decode rest"
      by (intro utf8_decode_3) simp_all
    with enc cp show ?thesis by simp
  next
    case 4
    define z where "z = cp div 64"
    define d where "d = cp mod 64"
    define y where "y = z div 64"
    define c where "c = z mod 64"
    define a where "a = y div 64"
    define b where "b = y mod 64"
    have cp: "cp = ((a * 64 + b) * 64 + c) * 64 + d"
      by (simp add: z_def d_def y_def c_def a_def b_def)
    have bcd: "b < 64" "c < 64" "d < 64" by (simp_all add: b_def c_def d_def)
    from assms have "cp < 0x110000" by (simp add: scalar_value_def)
    with 4 have z: "1024 \<le> z" "z < 17408" unfolding z_def by simp_all
    then have y: "16 \<le> y" "y < 272" unfolding y_def by simp_all
    then have a: "a < 5" unfolding a_def by simp
    have y_ab: "y = a * 64 + b" by (simp add: a_def b_def)
    from 4 have "\<not> cp < 0x10000" "\<not> cp < 0x800" "\<not> cp < 0x80" by simp_all
    then have enc: "utf8_encode cp =
        [char_of (0xF0 + a), char_of (0x80 + b), char_of (0x80 + c), char_of (0x80 + d)]"
      by (simp add: utf8_encode_def div_4096 div_262144 z_def d_def y_def c_def a_def b_def)
    have lo: "(if 0xF0 + a = 0xF0 then 0x90 else 0x80) \<le> 0x80 + b"
    proof (cases "a = 0")
      case True
      with y y_ab show ?thesis by simp
    next
      case False
      then show ?thesis by simp
    qed
    have hi: "0x80 + b \<le> (if 0xF0 + a = 0xF4 then 0x8F else 0xBF)"
    proof (cases "a = 4")
      case True
      with y y_ab have "b < 16" by simp
      with True show ?thesis by simp
    next
      case False
      with bcd show ?thesis by simp
    qed
    from a bcd lo hi
    have "utf8_decode (char_of (0xF0 + a) # char_of (0x80 + b) # char_of (0x80 + c) #
            char_of (0x80 + d) # rest) =
        ((0xF0 + a - 0xF0) * 262144 + (0x80 + b - 0x80) * 4096 + (0x80 + c - 0x80) * 64 +
         (0x80 + d - 0x80)) # utf8_decode rest"
      by (intro utf8_decode_4) simp_all
    with enc cp show ?thesis by simp
  qed
qed

lemma utf8_decode_encode_all:
  "list_all scalar_value cps \<Longrightarrow> utf8_decode (concat (map utf8_encode cps)) = cps"
proof (induction cps)
  case Nil
  then show ?case by (simp add: utf8_decode.simps)
next
  case (Cons cp cps)
  then show ?case by (simp add: utf8_decode_encode)
qed

lemma utf8_text_utf8_bytes: "utf8_text (utf8_bytes s) = toUSVString s"
  by (simp add: utf8_text_def utf8_bytes_def toUSVString_def utf8_decode_encode_all
      code_points_scalar)

lemma utf8_encode_ascii: "ascii c \<Longrightarrow> utf8_encode (of_char c) = [c]"
  by (simp add: ascii_def utf8_encode_def)

lemma utf8_bytes_str: "list_all ascii x \<Longrightarrow> utf8_bytes (str x) = x"
  by (induction x) (simp_all add: utf8_bytes_def code_points_str utf8_encode_ascii)

lemma utf8_decode_ascii: "list_all ascii x \<Longrightarrow> utf8_decode x = map of_char x"
proof (induction x)
  case Nil
  then show ?case by (simp add: utf8_decode.simps)
next
  case (Cons c x)
  then have "(of_char c :: nat) < 0x80" by (simp add: ascii_def)
  from utf8_decode_1 [OF this, of x] Cons show ?case by simp
qed

lemma utf8_text_ascii: "list_all ascii x \<Longrightarrow> utf8_text x = str x"
  by (simp add: utf8_text_def utf8_decode_ascii utf16_encode_of_char)

section \<open>The serialiser and the parser are inverse\<close>

lemma hex_value_hex_digit: "n < 16 \<Longrightarrow> hex_value (hex_digit n) = Some n"
  by (auto simp: hex_value_def hex_digit_def Let_def)

lemma hex_digit_safe: "n < 16 \<Longrightarrow> is_urlencoded_safe (hex_digit n)"
  by (auto simp: is_urlencoded_safe_def hex_digit_def Let_def)

lemma of_char_div_16: "(of_char c :: nat) div 16 < 16"
  using of_char_lt_256 [of c] by arith

lemma decode_percent_encode_byte:
  "percent_decode (percent_encode_byte c @ t) = c # percent_decode t"
proof -
  let ?n = "of_char c :: nat"
  have "?n mod 16 < 16" by simp
  moreover have "16 * (?n div 16) + ?n mod 16 = ?n" by simp
  ultimately show ?thesis
    by (simp add: percent_encode_byte_def hex_value_hex_digit of_char_div_16)
qed

lemma url_char_not_delimiter:
  "url_char c \<Longrightarrow> c \<noteq> CHR ''&'' \<and> c \<noteq> CHR ''='' \<and> c \<noteq> CHR ''#'' \<and> c \<noteq> CHR ''?'' \<and> c \<noteq> CHR ''/''"
  by (auto simp: url_char_def is_urlencoded_safe_def)

lemma urlencoded_byte_chars: "x \<in> set (urlencoded_byte c) \<Longrightarrow> url_char x"
  by (auto simp: urlencoded_byte_def percent_encode_byte_def url_char_def hex_digit_safe
      of_char_div_16 split: if_splits)

lemma urlencoded_string_chars: "x \<in> set (urlencoded_string s) \<Longrightarrow> url_char x"
  by (auto simp: urlencoded_string_def urlencoded_byte_chars)

lemma safe_not_percent_plus:
  "is_urlencoded_safe c \<Longrightarrow> c \<noteq> CHR ''%'' \<and> c \<noteq> CHR ''+''"
  by (auto simp: is_urlencoded_safe_def)

lemma percent_decode_Cons_other:
  "c \<noteq> CHR ''%'' \<Longrightarrow> percent_decode (c # s) = c # percent_decode s"
  by (cases "(c # s)" rule: percent_decode.cases) (auto split: option.splits)

lemma plus_to_space_percent_encode_byte:
  "plus_to_space (percent_encode_byte c) = percent_encode_byte c"
proof -
  have "hex_digit n \<noteq> CHR ''+''" if "n < 16" for n
    using hex_digit_safe [OF that] safe_not_percent_plus by blast
  then show ?thesis
    by (simp add: plus_to_space_def percent_encode_byte_def of_char_div_16)
qed

lemma decode_urlencoded_byte:
  "percent_decode (plus_to_space (urlencoded_byte c) @ t) = c # percent_decode t"
proof (cases "c = CHR '' ''")
  case True
  then show ?thesis
    by (simp add: urlencoded_byte_def plus_to_space_def percent_decode_Cons_other)
next
  case False
  show ?thesis
  proof (cases "is_urlencoded_safe c")
    case True
    with False safe_not_percent_plus [of c] show ?thesis
      by (simp add: urlencoded_byte_def plus_to_space_def percent_decode_Cons_other)
  next
    case unsafe: False
    with False show ?thesis
      by (simp add: urlencoded_byte_def plus_to_space_percent_encode_byte
          decode_percent_encode_byte)
  qed
qed

lemma plus_to_space_append: "plus_to_space (a @ b) = plus_to_space a @ plus_to_space b"
  by (simp add: plus_to_space_def)

lemma decode_urlencoded_string: "percent_decode (plus_to_space (urlencoded_string s)) = s"
proof (induction s)
  case Nil
  then show ?case by (simp add: urlencoded_string_def plus_to_space_def)
next
  case (Cons c s)
  have "urlencoded_string (c # s) = urlencoded_byte c @ urlencoded_string s"
    by (simp add: urlencoded_string_def)
  with Cons show ?case
    by (simp add: plus_to_space_append decode_urlencoded_byte)
qed

lemma split_on_single: "d \<notin> set a \<Longrightarrow> split_on d a = [a]"
  by (induction a) auto

lemma split_on_append: "d \<notin> set a \<Longrightarrow> split_on d (a @ d # t) = a # split_on d t"
  by (induction a) auto

lemma pair_string_no_amp: "CHR ''&'' \<notin> set (pair_string p)"
  using urlencoded_string_chars url_char_not_delimiter by (fastforce simp: pair_string_def)

lemma pair_string_nonempty: "pair_string p \<noteq> []"
  by (simp add: pair_string_def)

lemma urlencoded_pair_pair_string:
  "urlencoded_pair (pair_string p) = (utf8_text (fst p), utf8_text (snd p))"
proof -
  have no_eq: "\<forall>x \<in> set (urlencoded_string (fst p)). x \<noteq> CHR ''=''"
    using urlencoded_string_chars url_char_not_delimiter by blast
  then have "takeWhile (\<lambda>c. c \<noteq> CHR ''='') (pair_string p) = urlencoded_string (fst p)"
    by (simp add: pair_string_def takeWhile_append2 [of _ "\<lambda>c. c \<noteq> CHR ''=''"])
  moreover from no_eq
  have "dropWhile (\<lambda>c. c \<noteq> CHR ''='') (pair_string p) = ''='' @ urlencoded_string (snd p)"
    by (simp add: pair_string_def dropWhile_append2 [of _ "\<lambda>c. c \<noteq> CHR ''=''"])
  ultimately show ?thesis
    by (simp add: urlencoded_pair_def decode_urlencoded_string)
qed

lemma toString_Cons:
  "urlencoded_serialize (p # ps) =
     (if ps = [] then pair_string p else pair_string p @ ''&'' @ urlencoded_serialize ps)"
  by (cases p; cases ps) (auto simp: pair_string_def)

lemma urlencoded_parse_serialize:
  "urlencoded_parse (urlencoded_serialize ps) = map (\<lambda>p. (utf8_text (fst p), utf8_text (snd p))) ps"
proof (induction ps)
  case Nil
  then show ?case by (simp add: urlencoded_parse_def)
next
  case (Cons p ps)
  show ?case
  proof (cases "ps = []")
    case True
    then show ?thesis
      by (simp add: toString_Cons urlencoded_parse_def split_on_single pair_string_no_amp
          pair_string_nonempty urlencoded_pair_pair_string)
  next
    case False
    have "split_on CHR ''&'' (pair_string p @ CHR ''&'' # urlencoded_serialize ps) =
            pair_string p # split_on CHR ''&'' (urlencoded_serialize ps)"
      by (rule split_on_append) (rule pair_string_no_amp)
    with False Cons show ?thesis
      by (simp add: toString_Cons urlencoded_parse_def pair_string_nonempty
          urlencoded_pair_pair_string)
  qed
qed

lemma toString_chars:
  "x \<in> set (urlencoded_serialize ps) \<Longrightarrow> url_char x \<or> x = CHR ''='' \<or> x = CHR ''&''"
proof (induction ps)
  case Nil
  then show ?case by simp
next
  case (Cons p ps)
  then show ?case
    by (auto simp: toString_Cons pair_string_def dest: urlencoded_string_chars split: if_splits)
qed

lemma toString_no_hash: "CHR ''#'' \<notin> set (urlencoded_serialize ps)"
  using toString_chars [of "CHR ''#''" ps] url_char_not_delimiter [of "CHR ''#''"] by auto

lemma url_char_ascii: "url_char c \<Longrightarrow> ascii c"
  by (auto simp: url_char_def is_urlencoded_safe_def ascii_def Let_def)

lemma serialize_ascii: "list_all ascii (urlencoded_serialize ps)"
proof -
  have "ascii x" if "x \<in> set (urlencoded_serialize ps)" for x
    using toString_chars [OF that] url_char_ascii [of x] by (auto simp: ascii_def)
  then show ?thesis by (simp add: list_all_iff)
qed

lemma parse_serialize_params:
  "urlencoded_parse (urlencoded_serialize (map (\<lambda>p. (utf8_bytes (fst p), utf8_bytes (snd p))) ps)) =
     map (\<lambda>p. (toUSVString (fst p), toUSVString (snd p))) ps"
  by (simp add: urlencoded_parse_serialize utf8_text_utf8_bytes comp_def)

section \<open>What buildUrl returns\<close>

lemma str_append2: "str a @ str b @ x = str (a @ b) @ x"
  by (simp add: str_append)

lemma params_built:
  "URLSearchParams_set (URLSearchParams_set [] (str ''access_key'') k) (str ''query'') loc =
     [(str ''access_key'', toUSVString k), (str ''query'', toUSVString loc)]"
  by (simp add: URLSearchParams_set_def toUSVString_str str_eq_iff)

lemma params_built_date:
  "URLSearchParams_set
     [(str ''access_key'', k), (str ''query'', q)] (str ''historical_date'') d =
     [(str ''access_key'', k), (str ''query'', q), (str ''historical_date'', toUSVString d)]"
  by (simp add: URLSearchParams_set_def toUSVString_str str_eq_iff)

lemma buildUrl_parts:
  "buildUrl K m loc d =
     str (''https://api.weatherstack.com/'' @ endpoint_of m @ ''?'') @
     URLSearchParams_toString (params_of K m loc d)"
  by (simp add: buildUrl_def Let_def params_built params_built_date endpoint_of_def
      params_of_def MODES_MARINE_def MODES_HISTORICAL_def API_BASE_URL_def str_eq_iff
      str_append2 str_append [symmetric])

lemma buildUrl_closed_form: "buildUrl K m loc d = str (url_bytes K m loc d)"
  unfolding buildUrl_parts URLSearchParams_toString_def url_bytes_def
  by (simp add: str_def)

lemma url_bytes_ascii: "list_all ascii (url_bytes K m loc d)"
  by (simp add: url_bytes_def endpoint_of_def serialize_ascii ascii_def)

lemma utf8_bytes_buildUrl: "utf8_bytes (buildUrl K m loc d) = url_bytes K m loc d"
  by (simp add: buildUrl_closed_form utf8_bytes_str url_bytes_ascii)

lemma takeWhile_no_hash:
  "takeWhile (\<lambda>c. c \<noteq> CHR ''#'') (urlencoded_serialize ps) = urlencoded_serialize ps"
  using toString_no_hash [of ps] by (simp add: takeWhile_eq_all_conv) metis

lemma search_bytes_url_bytes:
  "search_bytes (url_bytes K m loc d) =
     urlencoded_serialize
       (map (\<lambda>p. (utf8_bytes (fst p), utf8_bytes (snd p))) (params_of K m loc d))"
  by (simp add: url_bytes_def search_bytes_def endpoint_of_def takeWhile_no_hash)

lemma pathname_bytes_url_bytes:
  "pathname_bytes (url_bytes K m loc d) = ''/'' @ endpoint_of m"
  by (simp add: url_bytes_def pathname_bytes_def endpoint_of_def takeWhile_no_hash)

lemma url_pathname_buildUrl:
  "url_pathname (buildUrl K m loc d) = str (''/'' @ endpoint_of m)"
proof -
  have "list_all ascii (''/'' @ endpoint_of m)"
    by (simp add: endpoint_of_def ascii_def)
  then show ?thesis
    by (simp only: url_pathname_def utf8_bytes_buildUrl pathname_bytes_url_bytes utf8_text_ascii)
qed

lemma url_searchParams_buildUrl:
  "url_searchParams (buildUrl K m loc d) = params_of K m loc d"
proof -
  have "url_searchParams (buildUrl K m loc d) =
      map (\<lambda>p. (toUSVString (fst p), toUSVString (snd p))) (params_of K m loc d)"
    by (simp only: url_searchParams_def utf8_bytes_buildUrl search_bytes_url_bytes
        parse_serialize_params)
  also have "\<dots> = params_of K m loc d"
    by (simp add: params_of_def toUSVString_idem toUSVString_str)
  finally show ?thesis .
qed

lemma endpoint_of_mode:
  "m \<in> {MODES_CURRENT, MODES_HISTORICAL, MODES_MARINE} \<Longrightarrow> str (endpoint_of m) = m"
  by (auto simp: endpoint_of_def MODES_CURRENT_def MODES_HISTORICAL_def MODES_MARINE_def
      str_eq_iff)

section \<open>Blank strings\<close>

lemma trimEnd_empty_iff: "trimEnd s = [] \<longleftrightarrow> list_all is_ws s"
  by (simp add: trimEnd_def dropWhile_eq_Nil_conv list_all_iff)

lemma list_all_dropWhile: "list_all P (dropWhile P s) \<longleftrightarrow> list_all P s"
  by (induction s) simp_all

lemma trim_empty_iff_blank: "trim s = [] \<longleftrightarrow> blank s"
  by (simp add: trim_def trimEnd_empty_iff trimStart_def list_all_dropWhile blank_def)

lemma trim_blank: "blank s \<Longrightarrow> trim s = []"
  by (simp add: trim_empty_iff_blank)

section \<open>How a request ends\<close>

lemma check_body_Normal:
  "check_body E ok j = Normal v \<Longrightarrow> v = j \<and> \<not> request_failed E (Response ok (BodyParsed j))"
  by (auto simp: check_body_def request_failed_def
      split: if_splits completion.splits bool.splits option.splits)

lemma check_body_Throw:
  "check_body E ok j = Throw m \<Longrightarrow> request_failed E (Response ok (BodyParsed j))"
  by (auto simp: check_body_def request_failed_def
      split: if_splits completion.splits bool.splits option.splits)

lemma catch_block_eq:
  "\<exists>m'. m' \<noteq> [] \<and> catch_block m s = s\<lparr>error := m'\<rparr>"
  by (auto simp: catch_block_def something_wrong_message_def str_def)

lemma settle_failed:
  assumes "request_failed E r"
  shows "\<exists>m. m \<noteq> [] \<and> handleSubmit_settle E s r = s\<lparr>error := m, isLoading := False\<rparr>"
proof -
  have "\<exists>m. handleSubmit_settle E s r = (catch_block m s)\<lparr>isLoading := False\<rparr>"
  proof (cases r)
    case (FetchRejected m)
    then show ?thesis by (auto simp: handleSubmit_settle_def)
  next
    case (Response ok b)
    show ?thesis
    proof (cases b)
      case (BodyRejected m)
      with Response show ?thesis by (auto simp: handleSubmit_settle_def)
    next
      case (BodyParsed j)
      show ?thesis
      proof (cases "check_body E ok j")
        case (Throw m)
        with Response BodyParsed show ?thesis by (auto simp: handleSubmit_settle_def)
      next
        case (Normal v)
        with assms Response BodyParsed check_body_Normal [of E ok j v] show ?thesis by simp
      qed
    qed
  qed
  then obtain m where "handleSubmit_settle E s r = (catch_block m s)\<lparr>isLoading := False\<rparr>" ..
  moreover obtain m' where "m' \<noteq> []" "catch_block m s = s\<lparr>error := m'\<rparr>"
    using catch_block_eq [of m s] by blast
  ultimately show ?thesis by auto
qed

lemma settle_succeeded:
  assumes "\<not> request_failed E r"
  shows "\<exists>j. r = Response True (BodyParsed j) \<and>
             handleSubmit_settle E s r = s\<lparr>weatherData := Some j, isLoading := False\<rparr>"
proof -
  from assms obtain ok j where r: "r = Response ok (BodyParsed j)" and ok: "ok"
    by (auto simp: request_failed_def split: fetch_result.splits body.splits)
  have "check_body E ok j = Normal j"
  proof (cases "check_body E ok j")
    case (Throw m)
    with assms r check_body_Throw [of E ok j m] show ?thesis by simp
  next
    case (Normal v)
    with check_body_Normal [of E ok j v] show ?thesis by simp
  qed
  with r ok show ?thesis by (simp add: handleSubmit_settle_def)
qed

lemma optional_property_info:
  "truthy E e \<Longrightarrow> optional_property E (Some e) (str ''info'') = Normal (info_of e)"
  by (cases e) (simp_all add: optional_property_def get_property_def info_of_def)

lemma check_body_error:
  assumes "map_of kvs (str ''error'') = Some e" and "truthy E e"
  shows "check_body E True (JObj kvs) =
           (case info_of e of
              None \<Rightarrow> Throw fetch_failed_message
            | Some i \<Rightarrow>
                if truthy E i
                then (case ToString E i of Throw m \<Rightarrow> Throw m | Normal m \<Rightarrow> Throw m)
                else Throw fetch_failed_message)"
  using assms
  by (simp add: check_body_def get_property_def truthy_opt_def optional_property_info
      split: option.splits completion.splits)


section \<open>The invariant of the running component\<close>

lemma begin_None:
  "handleSubmit_begin K s = (s', None) \<Longrightarrow>
     weatherData s' = weatherData s \<and> isLoading s' = isLoading s \<and> mode s' = mode s \<and>
     location s' = location s \<and> date s' = date s \<and>
     error s' \<in> {missing_key_message, missing_location_message, missing_date_message}"
  by (auto simp: handleSubmit_begin_def split: if_splits)

lemma begin_Some:
  "handleSubmit_begin K s = (s', Some url) \<Longrightarrow>
     s' = s\<lparr>isLoading := True, error := [], weatherData := None\<rparr> \<and>
     url = buildUrl K (mode s) (trim (location s)) (date s) \<and>
     \<not> no_key K \<and> trim (location s) \<noteq> [] \<and> (mode s = MODES_HISTORICAL \<longrightarrow> date s \<noteq> [])"
  by (auto simp: handleSubmit_begin_def split: if_splits)

lemma settle_not_loading: "\<not> isLoading (handleSubmit_settle E s r)"
  by (simp add: handleSubmit_settle_def Let_def)

lemma settle_at_most_one:
  assumes "error s = []" and "weatherData s = None"
  shows "error (handleSubmit_settle E s r) = [] \<or> weatherData (handleSubmit_settle E s r) = None"
proof (cases "request_failed E r")
  case True
  from settle_failed [OF True, of s] assms show ?thesis by auto
next
  case False
  from settle_succeeded [OF False, of s] assms show ?thesis by auto
qed

lemma step_settled_or_waiting:
  assumes "settled_or_waiting a" and "step K E a e = Some a'"
  shows "settled_or_waiting a'"
proof (cases e)
  case (ModeChange m)
  with assms show ?thesis
    by (auto simp: settled_or_waiting_def handleModeChange_def split: list.splits)
next
  case (LocationInput v)
  with assms show ?thesis by (auto simp: settled_or_waiting_def split: list.splits)
next
  case (DateInput v)
  with assms show ?thesis by (auto simp: settled_or_waiting_def split: list.splits)
next
  case Submit
  with assms have idle: "\<not> isLoading (ui a)" by (auto split: if_splits)
  with assms have none: "in_flight a = []"
    by (auto simp: settled_or_waiting_def split: list.splits)
  obtain s' u where b: "handleSubmit_begin K (ui a) = (s', u)" by (cases "handleSubmit_begin K (ui a)")
  show ?thesis
  proof (cases u)
    case None
    with b begin_None [of K "ui a" s'] idle none assms Submit show ?thesis
      by (auto simp: settled_or_waiting_def)
  next
    case (Some url)
    with b begin_Some [of K "ui a" s' url] idle none assms Submit show ?thesis
      by (auto simp: settled_or_waiting_def)
  qed
next
  case (Settle r)
  with assms obtain url where fl: "in_flight a = [url]"
    and w: "error (ui a) = []" "weatherData (ui a) = None"
    by (auto simp: settled_or_waiting_def split: list.splits)
  with assms Settle show ?thesis
    by (auto simp: settled_or_waiting_def settle_not_loading)
qed

lemma idle_nothing_in_flight:
  "settled_or_waiting a \<Longrightarrow> \<not> isLoading (ui a) \<Longrightarrow> in_flight a = []"
  by (auto simp: settled_or_waiting_def split: list.splits)

lemma waiting_nothing_set:
  "settled_or_waiting a \<Longrightarrow> in_flight a = url # rest \<Longrightarrow>
     rest = [] \<and> error (ui a) = [] \<and> weatherData (ui a) = None"
  by (auto simp: settled_or_waiting_def)

text \<open>A rejected and an accepted submission, and the end of a request, as steps.\<close>

lemma step_Submit_rejected:
  assumes "step K E a Submit = Some a'"
    and "no_key K \<or> blank (location (ui a)) \<or> (mode (ui a) = MODES_HISTORICAL \<and> date (ui a) = [])"
  shows "a' = a\<lparr>ui := (ui a)\<lparr>error :=
           (if no_key K then missing_key_message
            else if blank (location (ui a)) then missing_location_message
            else missing_date_message)\<rparr>\<rparr> \<and> \<not> isLoading (ui a)"
  using assms trim_empty_iff_blank [of "location (ui a)"]
  by (auto simp: handleSubmit_begin_def split: if_splits)

lemma step_Submit_accepted:
  assumes "step K E a Submit = Some a'"
    and "\<not> (no_key K \<or> blank (location (ui a)) \<or>
            (mode (ui a) = MODES_HISTORICAL \<and> date (ui a) = []))"
  shows "a' = \<lparr>ui = (ui a)\<lparr>isLoading := True, error := [], weatherData := None\<rparr>,
               in_flight = in_flight a @
                 [buildUrl K (mode (ui a)) (trim (location (ui a))) (date (ui a))]\<rparr>"
  using assms trim_empty_iff_blank [of "location (ui a)"]
  by (auto simp: handleSubmit_begin_def split: if_splits)

lemma step_consistent:
  assumes "consistent K a" and "step K E a e = Some a'"
  shows "consistent K a'"
proof -
  from assms have sw: "settled_or_waiting a"
    and nk: "no_key K \<longrightarrow> weatherData (ui a) = None \<and> in_flight a = []"
    and both: "weatherData (ui a) \<noteq> None \<and> error (ui a) \<noteq> [] \<longrightarrow>
         error (ui a) = missing_location_message \<or> error (ui a) = missing_date_message"
    by (simp_all add: consistent_def)
  from step_settled_or_waiting [OF sw assms(2)] have sw': "settled_or_waiting a'" .
  have rest: "(no_key K \<longrightarrow> weatherData (ui a') = None \<and> in_flight a' = []) \<and>
      (weatherData (ui a') \<noteq> None \<and> error (ui a') \<noteq> [] \<longrightarrow>
         error (ui a') = missing_location_message \<or> error (ui a') = missing_date_message)"
  proof (cases e)
    case (ModeChange m)
    with assms(2) nk show ?thesis by (auto simp: handleModeChange_def)
  next
    case (LocationInput v)
    with assms(2) nk both show ?thesis by auto
  next
    case (DateInput v)
    with assms(2) nk both show ?thesis by auto
  next
    case Submit
    show ?thesis
    proof (cases "no_key K \<or> blank (location (ui a)) \<or>
        (mode (ui a) = MODES_HISTORICAL \<and> date (ui a) = [])")
      case True
      from step_Submit_rejected [OF assms(2) [unfolded Submit] True] nk both show ?thesis
        by auto
    next
      case False
      from step_Submit_accepted [OF assms(2) [unfolded Submit] False] False show ?thesis
        by auto
    qed
  next
    case (Settle r)
    with assms(2) obtain url rest where fl: "in_flight a = url # rest"
      and a': "a' = \<lparr>ui = handleSubmit_settle E (ui a) r, in_flight = rest\<rparr>"
      by (auto split: list.splits)
    from waiting_nothing_set [OF sw fl] have w: "error (ui a) = []" "weatherData (ui a) = None"
      by simp_all
    from nk fl have nokey: "\<not> no_key K" by auto
    from settle_at_most_one [OF w, of E r] a' nokey show ?thesis by auto
  qed
  with sw' show ?thesis by (simp add: consistent_def)
qed

lemma run_consistent:
  "consistent K a \<Longrightarrow> run K E a es = Some a' \<Longrightarrow> consistent K a'"
proof (induction es arbitrary: a)
  case Nil
  then show ?case by simp
next
  case (Cons e es)
  then show ?case by (auto split: option.splits dest: step_consistent)
qed

lemma run_snoc:
  "run K E a (es @ [e]) = (case run K E a es of None \<Rightarrow> None | Some b \<Rightarrow> step K E b e)"
  by (induction es arbitrary: a) (auto split: option.splits)

lemma initial_consistent: "consistent K initial_app"
  by (simp add: consistent_def settled_or_waiting_def initial_app_def initial_state_def)

section \<open>The request builder: claims\<close>

text \<open>
  C1, as stated, fails for a location that is not well formed: a location made of one
  lone surrogate is sent as U+FFFD, so the value of \<open>query\<close> is not the location given.
\<close>

theorem lone_surrogate_location_replaced:
  "buildUrl (Some (str ''key'')) MODES_CURRENT [0xD800] [] =
     str ''https://api.weatherstack.com/current?access_key=key&query=%EF%BF%BD'' \<and>
   getAll (url_searchParams (buildUrl (Some (str ''key'')) MODES_CURRENT [0xD800] []))
     (str ''query'') = [[0xFFFD]] \<and>
   [0xFFFD] \<noteq> ([0xD800] :: jsstring)"
  by code_simp

text \<open>
  C1, amended. For every mode among current, historical and marine, every location and
  every date, the URL that \<open>buildUrl\<close> returns has the path of that mode (\<open>/current\<close>,
  \<open>/historical\<close> or \<open>/marine\<close>), and its query holds the parameter \<open>query\<close> exactly
  once. Its value is the location with every lone surrogate replaced by U+FFFD; it is
  the location given exactly when the location is well formed.
\<close>

theorem buildUrl_path_and_query:
  assumes "m \<in> {MODES_CURRENT, MODES_HISTORICAL, MODES_MARINE}"
  shows "url_pathname (buildUrl K m loc d) = str ''/'' @ m \<and>
         getAll (url_searchParams (buildUrl K m loc d)) (str ''query'') = [toUSVString loc] \<and>
         (getAll (url_searchParams (buildUrl K m loc d)) (str ''query'') = [loc] \<longleftrightarrow>
            well_formed loc)"
proof -
  from endpoint_of_mode [OF assms]
  have "str (''/'' @ endpoint_of m) = str ''/'' @ m"
    by (simp only: str_append)
  then have "url_pathname (buildUrl K m loc d) = str ''/'' @ m"
    by (simp only: url_pathname_buildUrl)
  moreover have "getAll (url_searchParams (buildUrl K m loc d)) (str ''query'') = [toUSVString loc]"
    by (simp add: url_searchParams_buildUrl params_of_def getAll_def str_eq_iff)
  ultimately show ?thesis by (simp add: well_formed_iff)
qed

theorem buildUrl_path_and_query_witness:
  "MODES_HISTORICAL \<in> {MODES_CURRENT, MODES_HISTORICAL, MODES_MARINE} \<and>
   url_pathname (buildUrl (Some (str ''k&1'')) MODES_HISTORICAL (str ''New York'') (str ''2024-01-02'')) =
     str ''/historical'' \<and>
   getAll (url_searchParams
             (buildUrl (Some (str ''k&1'')) MODES_HISTORICAL (str ''New York'') (str ''2024-01-02'')))
     (str ''query'') = [str ''New York'']"
proof -
  have h: "MODES_HISTORICAL \<in> {MODES_CURRENT, MODES_HISTORICAL, MODES_MARINE}" by simp
  from buildUrl_path_and_query
         [OF h, of "Some (str ''k&1'')" "str ''New York''" "str ''2024-01-02''"] h
  show ?thesis by (simp add: MODES_HISTORICAL_def toUSVString_str str_append [symmetric])
qed

text \<open>
  C2. The URL that \<open>buildUrl\<close> returns holds a parameter \<open>historical_date\<close> if and only
  if the mode is historical and the date is not empty, and its value is then that date
  (as a USVString, which is the date itself when it is well formed); for the marine and
  current modes it never holds one, whatever the date.
\<close>

theorem buildUrl_historical_date:
  "(has (url_searchParams (buildUrl K m loc d)) (str ''historical_date'') \<longleftrightarrow>
      m = MODES_HISTORICAL \<and> d \<noteq> []) \<and>
   getAll (url_searchParams (buildUrl K m loc d)) (str ''historical_date'') =
     (if m = MODES_HISTORICAL \<and> d \<noteq> [] then [toUSVString d] else []) \<and>
   (well_formed d \<longrightarrow>
      getAll (url_searchParams (buildUrl K m loc d)) (str ''historical_date'') =
        (if m = MODES_HISTORICAL \<and> d \<noteq> [] then [d] else [])) \<and>
   (m = MODES_MARINE \<or> m = MODES_CURRENT \<longrightarrow>
      \<not> has (url_searchParams (buildUrl K m loc d)) (str ''historical_date''))"
  by (simp add: has_def url_searchParams_buildUrl params_of_def getAll_def str_eq_iff
      MODES_CURRENT_def MODES_HISTORICAL_def MODES_MARINE_def well_formed_toUSVString)

theorem buildUrl_historical_date_witness:
  "has (url_searchParams (buildUrl None MODES_HISTORICAL (str ''Tokyo'') (str ''2024-01-02'')))
     (str ''historical_date'') \<and>
   getAll (url_searchParams (buildUrl None MODES_HISTORICAL (str ''Tokyo'') (str ''2024-01-02'')))
     (str ''historical_date'') = [str ''2024-01-02''] \<and>
   \<not> has (url_searchParams (buildUrl None MODES_HISTORICAL (str ''Tokyo'') []))
     (str ''historical_date'') \<and>
   \<not> has (url_searchParams (buildUrl None MODES_MARINE (str ''36.96,-122.02'') (str ''2024-01-02'')))
     (str ''historical_date'')"
  using buildUrl_historical_date [of None MODES_HISTORICAL "str ''Tokyo''" "str ''2024-01-02''"]
    buildUrl_historical_date [of None MODES_HISTORICAL "str ''Tokyo''" "[]"]
    buildUrl_historical_date [of None MODES_MARINE "str ''36.96,-122.02''" "str ''2024-01-02''"]
  by (simp add: MODES_HISTORICAL_def MODES_MARINE_def str_eq_iff str_Nil_iff toUSVString_str)

text \<open>
  C9. On every heap and for every argument object, whatever its mode, location and date
  (an empty location and a missing or empty credential included), \<open>buildUrl\<close> completes
  normally, with the URL of one of the three endpoints that the function \<open>buildUrl\<close>
  gives. It leaves every object of the heap as it was, its argument included (the new
  \<open>URLSearchParams\<close> object is all it adds), and it leaves the requests as they were:
  the only request is the one the caller makes afterwards with \<open>fetch\<close>. The checks are
  the caller's too: \<open>handleSubmit\<close> calls \<open>fetch\<close> only with the URL built from the
  trimmed location, only when the location is not blank, and in historical mode only
  when a date is present.
\<close>

theorem buildUrl_no_effects:
  assumes "lookup w arg = Some (Query m loc d)"
  shows "\<exists>w'. buildUrl_in K arg w = (Normal (buildUrl K m loc d), w') \<and>
           requests w' = requests w \<and>
           (\<forall>a. a < length (heap w) \<longrightarrow> lookup w' a = lookup w a) \<and>
           lookup w' arg = Some (Query m loc d) \<and>
           length (heap w') = length (heap w) + 1 \<and>
           url_pathname (buildUrl K m loc d) \<in>
             {str ''/current'', str ''/historical'', str ''/marine''} \<and>
           requests (snd (buildUrl_then_fetch K m loc d w)) =
             requests w @ [buildUrl K m (trim loc) d] \<and>
           (\<forall>s s' url. handleSubmit_begin K s = (s', Some url) \<longrightarrow>
              url = buildUrl K (mode s) (trim (location s)) (date s) \<and>
              \<not> blank (location s) \<and> (mode s = MODES_HISTORICAL \<longrightarrow> date s \<noteq> []))"
proof -
  have run: "buildUrl_in K a v =
      (Normal (buildUrl K m' l' d'),
       v\<lparr>heap := heap v @
          [SearchParams
            (if m' = MODES_MARINE
             then URLSearchParams_set
                    (URLSearchParams_set [] (str ''access_key'') (or_empty K)) (str ''query'') l'
             else if m' = MODES_HISTORICAL \<and> d' \<noteq> []
             then URLSearchParams_set
                    (URLSearchParams_set
                      (URLSearchParams_set [] (str ''access_key'') (or_empty K)) (str ''query'') l')
                    (str ''historical_date'') d'
             else URLSearchParams_set
                    (URLSearchParams_set [] (str ''access_key'') (or_empty K)) (str ''query'') l')]\<rparr>)"
    if "lookup v a = Some (Query m' l' d')" for a v m' l' d'
  proof -
    from that have "a < length (heap v)" "heap v ! a = Query m' l' d'"
      by (auto simp: lookup_def split: if_splits)
    with that show ?thesis
      by (simp add: buildUrl_in_def buildUrl_def new_URLSearchParams_def params_set_def
          params_toString_def lookup_def Let_def nth_append)
  qed
  from assms have arg: "arg < length (heap w)"
    by (auto simp: lookup_def split: if_splits)
  from run [OF assms] obtain w' where w': "buildUrl_in K arg w = (Normal (buildUrl K m loc d), w')"
    and heap: "\<exists>ps. heap w' = heap w @ [SearchParams ps]" and req: "requests w' = requests w"
    by auto
  from heap have same: "\<forall>a. a < length (heap w) \<longrightarrow> lookup w' a = lookup w a"
    and len: "length (heap w') = length (heap w) + 1"
    by (auto simp: lookup_def nth_append)
  from same arg assms have kept: "lookup w' arg = Some (Query m loc d)" by simp
  have path: "url_pathname (buildUrl K m loc d) \<in>
      {str ''/current'', str ''/historical'', str ''/marine''}"
    by (simp add: url_pathname_buildUrl endpoint_of_def)
  have "lookup (w\<lparr>heap := heap w @ [Query m (trim loc) d]\<rparr>) (length (heap w)) =
      Some (Query m (trim loc) d)"
    by (simp add: lookup_def)
  from run [OF this]
  have caller: "requests (snd (buildUrl_then_fetch K m loc d w)) =
      requests w @ [buildUrl K m (trim loc) d]"
    by (simp add: buildUrl_then_fetch_def Let_def fetch_call_def)
  have guards: "url = buildUrl K (mode s) (trim (location s)) (date s) \<and>
      \<not> blank (location s) \<and> (mode s = MODES_HISTORICAL \<longrightarrow> date s \<noteq> [])"
    if "handleSubmit_begin K s = (s', Some url)" for s s' :: "'a app_state" and url
    using begin_Some [OF that] trim_empty_iff_blank [of "location s"] by auto
  from w' req same kept len path caller guards show ?thesis by blast
qed

theorem buildUrl_no_effects_witness:
  "lookup \<lparr>heap = [Query (str ''tides'') [] []], requests = [str ''earlier'']\<rparr> 0 =
     Some (Query (str ''tides'') [] []) \<and>
   buildUrl_in None 0 \<lparr>heap = [Query (str ''tides'') [] []], requests = [str ''earlier'']\<rparr> =
     (Normal (str ''https://api.weatherstack.com/current?access_key=&query=''),
      \<lparr>heap = [Query (str ''tides'') [] [],
               SearchParams [(str ''access_key'', []), (str ''query'', [])]],
       requests = [str ''earlier'']\<rparr>) \<and>
   requests (snd (buildUrl_then_fetch None (str ''tides'') [] []
                    \<lparr>heap = [Query (str ''tides'') [] []], requests = [str ''earlier'']\<rparr>)) =
     [str ''earlier'', str ''https://api.weatherstack.com/current?access_key=&query='']"
proof -
  let ?w = "\<lparr>heap = [Query (str ''tides'') [] []], requests = [str ''earlier'']\<rparr>"
  have l: "lookup ?w 0 = Some (Query (str ''tides'') [] [])"
    by (simp add: lookup_def)
  have r: "buildUrl_in None 0 ?w =
     (Normal (str ''https://api.weatherstack.com/current?access_key=&query=''),
      \<lparr>heap = [Query (str ''tides'') [] [],
               SearchParams [(str ''access_key'', []), (str ''query'', [])]],
       requests = [str ''earlier'']\<rparr>)"
    by code_simp
  have u: "buildUrl None (str ''tides'') (trim []) [] =
      str ''https://api.weatherstack.com/current?access_key=&query=''"
    by code_simp
  from buildUrl_no_effects [OF l, of None]
  have "requests (snd (buildUrl_then_fetch None (str ''tides'') [] [] ?w)) =
      requests ?w @ [buildUrl None (str ''tides'') (trim []) []]"
    by blast
  with u l r show ?thesis by simp
qed

section \<open>Submission: claims\<close>





text \<open>
  C5, as stated, fails on the validation path: a result shown from an earlier request
  is still there after a submission with an empty location has been rejected.
\<close>

theorem validation_error_keeps_result:
  "weatherData shown_london_state = Some london_body \<and>
   error (fst (handleSubmit (Some (str ''key'')) sample_engine offline shown_london_state)) =
     missing_location_message \<and>
   weatherData (fst (handleSubmit (Some (str ''key'')) sample_engine offline shown_london_state)) =
     Some london_body"
proof -
  have "blank (location shown_london_state)"
    by (simp add: shown_london_state_def initial_state_def blank_def)
  then have "trim (location shown_london_state) = []" by (rule trim_blank)
  then have "handleSubmit (Some (str ''key'')) sample_engine offline shown_london_state =
      (shown_london_state\<lparr>error := missing_location_message\<rparr>, [])"
    by (simp add: handleSubmit_def handleSubmit_begin_def no_key_def str_def)
  then show ?thesis by (simp add: shown_london_state_def)
qed

text \<open>
  C5, amended. In every state the running component reaches, a submission is possible
  whenever \<open>isLoading\<close> is false, and every error path ends with \<open>isLoading\<close> false and
  with no request in flight, so that nothing is retried. With no credential configured,
  submitting calls no \<open>fetch\<close>, sets the message of the missing key and the result is
  absent. When the request failed (a rejected \<open>fetch\<close>, a body that does not parse, a
  status that is not 2xx or a truthy \<open>error\<close> in the body), an error message is set and
  the result is absent. When validation fails (blank location, or historical mode with
  no date), submitting calls no \<open>fetch\<close> and sets the validation message, and the result
  is left as it was.
\<close>

theorem error_paths:
  assumes "run K E initial_app evs = Some a"
  shows "(\<not> isLoading (ui a) \<longrightarrow> step K E a Submit \<noteq> None) \<and>
         (\<forall>a'. step K E a Submit = Some a' \<longrightarrow> length (in_flight a') \<le> 1) \<and>
         (\<forall>a'. step K E a Submit = Some a' \<and> no_key K \<longrightarrow>
            in_flight a' = [] \<and> \<not> isLoading (ui a') \<and>
            error (ui a') = missing_key_message \<and> weatherData (ui a') = None) \<and>
         (\<forall>a'. step K E a Submit = Some a' \<and> \<not> no_key K \<and>
               (blank (location (ui a)) \<or> mode (ui a) = MODES_HISTORICAL \<and> date (ui a) = []) \<longrightarrow>
            in_flight a' = [] \<and> \<not> isLoading (ui a') \<and>
            error (ui a') = (if blank (location (ui a)) then missing_location_message
                             else missing_date_message) \<and>
            weatherData (ui a') = weatherData (ui a)) \<and>
         (\<forall>r a'. step K E a (Settle r) = Some a' \<and> request_failed E r \<longrightarrow>
            in_flight a' = [] \<and> \<not> isLoading (ui a') \<and>
            error (ui a') \<noteq> [] \<and> weatherData (ui a') = None)"
proof -
  from run_consistent [OF initial_consistent assms] have c: "consistent K a" .
  then have sw: "settled_or_waiting a"
    and nk: "no_key K \<longrightarrow> weatherData (ui a) = None \<and> in_flight a = []"
    by (simp_all add: consistent_def)
  have enabled: "\<not> isLoading (ui a) \<longrightarrow> step K E a Submit \<noteq> None"
    by (auto split: prod.splits option.splits)
  have one: "length (in_flight a') \<le> 1" if "step K E a Submit = Some a'" for a'
  proof -
    from step_settled_or_waiting [OF sw that] show ?thesis
      by (auto simp: settled_or_waiting_def split: list.splits)
  qed
  have config: "in_flight a' = [] \<and> \<not> isLoading (ui a') \<and>
      error (ui a') = missing_key_message \<and> weatherData (ui a') = None"
    if "step K E a Submit = Some a' \<and> no_key K" for a'
  proof -
    from that have s: "step K E a Submit = Some a'" and k: "no_key K" by simp_all
    from k have "no_key K \<or> blank (location (ui a)) \<or>
        (mode (ui a) = MODES_HISTORICAL \<and> date (ui a) = [])" by simp
    from step_Submit_rejected [OF s this] k nk show ?thesis by simp
  qed
  have validation: "in_flight a' = [] \<and> \<not> isLoading (ui a') \<and>
      error (ui a') = (if blank (location (ui a)) then missing_location_message
                       else missing_date_message) \<and>
      weatherData (ui a') = weatherData (ui a)"
    if "step K E a Submit = Some a' \<and> \<not> no_key K \<and>
        (blank (location (ui a)) \<or> mode (ui a) = MODES_HISTORICAL \<and> date (ui a) = [])" for a'
  proof -
    from that have s: "step K E a Submit = Some a'" and k: "\<not> no_key K"
      and v: "no_key K \<or> blank (location (ui a)) \<or>
        (mode (ui a) = MODES_HISTORICAL \<and> date (ui a) = [])"
      by auto
    from step_Submit_rejected [OF s v] have a': "a' = a\<lparr>ui := (ui a)\<lparr>error :=
           (if no_key K then missing_key_message
            else if blank (location (ui a)) then missing_location_message
            else missing_date_message)\<rparr>\<rparr>" and idle: "\<not> isLoading (ui a)"
      by simp_all
    from idle_nothing_in_flight [OF sw idle] a' idle k show ?thesis by simp
  qed
  have failed: "in_flight a' = [] \<and> \<not> isLoading (ui a') \<and>
      error (ui a') \<noteq> [] \<and> weatherData (ui a') = None"
    if "step K E a (Settle r) = Some a' \<and> request_failed E r" for r a'
  proof -
    from that obtain url rest where fl: "in_flight a = url # rest"
      and a': "a' = \<lparr>ui = handleSubmit_settle E (ui a) r, in_flight = rest\<rparr>"
      and f: "request_failed E r"
      by (auto split: list.splits)
    from waiting_nothing_set [OF sw fl]
    have w: "rest = []" "error (ui a) = []" "weatherData (ui a) = None" by simp_all
    from settle_failed [OF f, of "ui a"] w a' show ?thesis by auto
  qed
  from enabled one config validation failed show ?thesis by blast
qed

theorem error_paths_witness:
  "run (Some (str ''key'')) sample_engine initial_app [LocationInput (str ''London''), Submit] =
     Some \<lparr>ui = initial_state\<lparr>location := str ''London'', isLoading := True\<rparr>,
           in_flight = [str ''https://api.weatherstack.com/current?access_key=key&query=London'']\<rparr> \<and>
   step (Some (str ''key'')) sample_engine
     \<lparr>ui = initial_state\<lparr>location := str ''London'', isLoading := True\<rparr>,
      in_flight = [str ''https://api.weatherstack.com/current?access_key=key&query=London'']\<rparr>
     (Settle (FetchRejected (str ''Failed to fetch''))) =
     Some \<lparr>ui = initial_state\<lparr>location := str ''London'', error := str ''Failed to fetch''\<rparr>,
           in_flight = []\<rparr> \<and>
   request_failed sample_engine (FetchRejected (str ''Failed to fetch'')) \<and>
   error (initial_state\<lparr>location := str ''London'', error := str ''Failed to fetch''\<rparr>
            :: jsstring app_state) \<noteq> [] \<and>
   weatherData (initial_state\<lparr>location := str ''London'', error := str ''Failed to fetch''\<rparr>
            :: jsstring app_state) = None"
proof -
  let ?a = "\<lparr>ui = initial_state\<lparr>location := str ''London'', isLoading := True\<rparr>,
      in_flight = [str ''https://api.weatherstack.com/current?access_key=key&query=London'']\<rparr>
      :: jsstring app"
  let ?a' = "\<lparr>ui = initial_state\<lparr>location := str ''London'', error := str ''Failed to fetch''\<rparr>,
      in_flight = []\<rparr> :: jsstring app"
  have r: "run (Some (str ''key'')) sample_engine initial_app
      [LocationInput (str ''London''), Submit] = Some ?a"
    by code_simp
  have s: "step (Some (str ''key'')) sample_engine ?a
      (Settle (FetchRejected (str ''Failed to fetch''))) = Some ?a'"
    by code_simp
  have f: "request_failed sample_engine (FetchRejected (str ''Failed to fetch''))"
    by (simp add: request_failed_def)
  from error_paths [OF r] s f
  have "in_flight ?a' = [] \<and> \<not> isLoading (ui ?a') \<and> error (ui ?a') \<noteq> [] \<and>
      weatherData (ui ?a') = None"
    by blast
  with r s f show ?thesis by simp
qed

text \<open>
  C6, as stated, fails for a body whose top-level \<open>error\<close> field is falsy: the body
  \<open>{"error": false}\<close> with a 2xx status is stored as the result and no error is set.
\<close>

theorem false_error_field_succeeds:
  "has_error_field false_error_body \<and>
   answers_false_error (str ''https://api.weatherstack.com/current?access_key=key&query=London'') =
     Response True (BodyParsed false_error_body) \<and>
   handleSubmit (Some (str ''key'')) sample_engine answers_false_error london_state =
     (london_state\<lparr>weatherData := Some false_error_body\<rparr>,
      [str ''https://api.weatherstack.com/current?access_key=key&query=London'']) \<and>
   error (london_state\<lparr>weatherData := Some false_error_body\<rparr>) = []"
proof -
  have "handleSubmit (Some (str ''key'')) sample_engine answers_false_error london_state =
     (london_state\<lparr>weatherData := Some false_error_body\<rparr>,
      [str ''https://api.weatherstack.com/current?access_key=key&query=London''])"
    by code_simp
  then show ?thesis
    by (simp add: has_error_field_def false_error_body_def answers_false_error_def
        london_state_def initial_state_def)
qed

text \<open>
  C6, amended. When a request that passed validation ends with a 2xx status and a body
  that is an object whose top-level \<open>error\<close> is truthy (anything but \<open>null\<close>, \<open>false\<close>,
  zero and the empty string), the cycle ends failed: the result is absent, \<open>isLoading\<close>
  is false and an error message is set. The message is \<open>error.info\<close> when that is a
  non-empty string, and \<open>Failed to fetch weather data.\<close> when \<open>error.info\<close> is absent or
  falsy.
\<close>

theorem embedded_error_fails:
  assumes "handleSubmit_begin K s = (s1, Some url)"
    and "fetch url = Response True (BodyParsed (JObj kvs))"
    and "map_of kvs (str ''error'') = Some e"
    and "truthy E e"
  shows "\<exists>s'. handleSubmit K E fetch s = (s', [url]) \<and>
           weatherData s' = None \<and> \<not> isLoading s' \<and> error s' \<noteq> [] \<and>
           (\<forall>m. info_of e = Some (JStr m) \<and> m \<noteq> [] \<longrightarrow> error s' = m) \<and>
           (\<not> truthy_opt E (info_of e) \<longrightarrow> error s' = fetch_failed_message)"
proof -
  let ?s' = "handleSubmit_settle E s1 (fetch url)"
  from assms(1) have run: "handleSubmit K E fetch s = (?s', [url])"
    by (simp add: handleSubmit_def)
  from begin_Some [OF assms(1)]
  have s1: "s1 = s\<lparr>isLoading := True, error := [], weatherData := None\<rparr>" by simp
  have failed: "request_failed E (fetch url)"
    using assms(2-4) by (simp add: request_failed_def get_property_def truthy_opt_def)
  from settle_failed [OF failed, of s1] s1
  have gen: "weatherData ?s' = None \<and> \<not> isLoading ?s' \<and> error ?s' \<noteq> []" by auto
  note body = check_body_error [OF assms(3,4)]
  have str: "error ?s' = m" if "info_of e = Some (JStr m)" "m \<noteq> []" for m
    using that assms(2) body by (simp add: handleSubmit_settle_def catch_block_def)
  have fallback: "error ?s' = fetch_failed_message" if "\<not> truthy_opt E (info_of e)"
    using that assms(2) body
    by (auto simp: handleSubmit_settle_def catch_block_def truthy_opt_def fetch_failed_message_def
        str_def split: option.splits)
  from run gen str fallback show ?thesis by blast
qed

theorem embedded_error_fails_witness:
  "handleSubmit_begin (Some (str ''key'')) london_state =
     (london_state\<lparr>isLoading := True\<rparr>,
      Some (str ''https://api.weatherstack.com/current?access_key=key&query=London'')) \<and>
   answers_invalid_key (str ''https://api.weatherstack.com/current?access_key=key&query=London'') =
     Response True
       (BodyParsed (JObj [(str ''error'', JObj [(str ''info'', JStr (str ''invalid access key''))])])) \<and>
   truthy sample_engine (JObj [(str ''info'', JStr (str ''invalid access key''))]) \<and>
   (\<exists>s'. handleSubmit (Some (str ''key'')) sample_engine answers_invalid_key london_state =
       (s', [str ''https://api.weatherstack.com/current?access_key=key&query=London'']) \<and>
     weatherData s' = None \<and> \<not> isLoading s' \<and> error s' = str ''invalid access key'')"
proof -
  let ?url = "str ''https://api.weatherstack.com/current?access_key=key&query=London''"
  let ?e = "JObj [(str ''info'', JStr (str ''invalid access key''))] :: jsstring json"
  have b: "handleSubmit_begin (Some (str ''key'')) london_state =
     (london_state\<lparr>isLoading := True\<rparr>, Some ?url)"
    by code_simp
  have f: "answers_invalid_key ?url = Response True (BodyParsed (JObj [(str ''error'', ?e)]))"
    by (simp add: answers_invalid_key_def invalid_key_body_def)
  have l: "map_of [(str ''error'', ?e)] (str ''error'') = Some ?e" by simp
  have t: "truthy sample_engine ?e" by simp
  have i: "info_of ?e = Some (JStr (str ''invalid access key''))" by (simp add: info_of_def)
  have n: "str ''invalid access key'' \<noteq> []" by (simp add: str_def)
  from embedded_error_fails [where fetch = answers_invalid_key and E = sample_engine, OF b f l t] i n
  have "\<exists>s'. handleSubmit (Some (str ''key'')) sample_engine answers_invalid_key london_state =
       (s', [?url]) \<and>
     weatherData s' = None \<and> \<not> isLoading s' \<and> error s' = str ''invalid access key''"
    by auto
  with b f t show ?thesis by blast
qed

section \<open>Switching the mode: claims\<close>

text \<open>
  C7. Whatever the result and the error were, switching the mode is possible and leaves
  the result absent and the error empty.
\<close>

theorem handleModeChange_clears:
  "weatherData (handleModeChange nextMode s) = None \<and>
   error (handleModeChange nextMode s) = [] \<and>
   step K E a (ModeChange nextMode) = Some (a\<lparr>ui := handleModeChange nextMode (ui a)\<rparr>)"
  by (simp add: handleModeChange_def)

theorem handleModeChange_clears_witness:
  "weatherData (handleModeChange MODES_MARINE shown_london_state) = None \<and>
   error (handleModeChange MODES_HISTORICAL (london_state\<lparr>error := missing_date_message\<rparr>)) = []"
  using handleModeChange_clears [of MODES_MARINE shown_london_state]
    handleModeChange_clears [of MODES_HISTORICAL "london_state\<lparr>error := missing_date_message\<rparr>"]
  by simp

text \<open>
  C10. Switching the mode changes the mode, the result and the error only: the
  location, the date and \<open>isLoading\<close> are as before, and so are the requests in flight.
\<close>

theorem handleModeChange_frame:
  "mode (handleModeChange nextMode s) = nextMode \<and>
   location (handleModeChange nextMode s) = location s \<and>
   date (handleModeChange nextMode s) = date s \<and>
   isLoading (handleModeChange nextMode s) = isLoading s \<and>
   (\<forall>a'. step K E a (ModeChange nextMode) = Some a' \<longrightarrow> in_flight a' = in_flight a)"
  by (auto simp: handleModeChange_def)

theorem handleModeChange_frame_witness:
  "location (handleModeChange MODES_MARINE london_state) = str '' London '' \<and>
   date (handleModeChange MODES_MARINE (historical_state\<lparr>date := str ''2024-01-02''\<rparr>)) =
     str ''2024-01-02'' \<and>
   step (Some (str ''key'')) sample_engine initial_app (ModeChange MODES_MARINE) =
     Some (initial_app\<lparr>ui := initial_state\<lparr>mode := MODES_MARINE\<rparr>\<rparr>) \<and>
   in_flight (initial_app\<lparr>ui := initial_state\<lparr>mode := MODES_MARINE\<rparr>\<rparr> :: jsstring app) =
     in_flight (initial_app :: jsstring app)"
proof -
  have st: "step (Some (str ''key'')) sample_engine initial_app (ModeChange MODES_MARINE) =
     Some (initial_app\<lparr>ui := initial_state\<lparr>mode := MODES_MARINE\<rparr>\<rparr>)"
    by (simp add: handleModeChange_def initial_app_def initial_state_def)
  from handleModeChange_frame
         [of MODES_MARINE london_state "Some (str ''key'')" sample_engine initial_app]
    handleModeChange_frame [of MODES_MARINE "historical_state\<lparr>date := str ''2024-01-02''\<rparr>"]
    st
  show ?thesis by (simp add: london_state_def)
qed

section \<open>The request cycle: claims\<close>

text \<open>
  C8, as stated, fails once a later submission is rejected: after a request for London
  has completed with a result, emptying the location and submitting again leaves the
  result and the error both set, with no request in flight.
\<close>

theorem rejected_submit_after_result:
  "run (Some (str ''key'')) sample_engine initial_app
     [LocationInput (str ''London''), Submit, Settle (Response True (BodyParsed london_body)),
      LocationInput [], Submit] =
     Some \<lparr>ui = initial_state\<lparr>weatherData := Some london_body,
                               error := missing_location_message\<rparr>,
           in_flight = []\<rparr> \<and>
   missing_location_message \<noteq> [] \<and> Some london_body \<noteq> None"
  by code_simp

text \<open>
  C8, amended. In every state the running component reaches from its initial state,
  \<open>isLoading\<close> holds exactly while a request is in flight, and at most one request is
  in flight. Right after a request has ended, \<open>isLoading\<close> is false and at most one
  of the error and the result is set; later, the two are both set only when no request
  is in flight and the error is the message of a missing location or of a missing date,
  set by a submission that validation rejected.
\<close>

theorem request_state_invariant:
  assumes "run K E initial_app evs = Some a"
  shows "(isLoading (ui a) \<longleftrightarrow> in_flight a \<noteq> []) \<and> length (in_flight a) \<le> 1 \<and>
         (\<forall>es r. evs = es @ [Settle r] \<longrightarrow>
            \<not> isLoading (ui a) \<and> (error (ui a) = [] \<or> weatherData (ui a) = None)) \<and>
         (error (ui a) \<noteq> [] \<and> weatherData (ui a) \<noteq> None \<longrightarrow>
            \<not> isLoading (ui a) \<and>
            (error (ui a) = missing_location_message \<or> error (ui a) = missing_date_message))"
proof -
  from run_consistent [OF initial_consistent assms] have c: "consistent K a" .
  then have inv: "settled_or_waiting a" by (simp add: consistent_def)
  then have now: "(isLoading (ui a) \<longleftrightarrow> in_flight a \<noteq> []) \<and> length (in_flight a) \<le> 1"
    by (auto simp: settled_or_waiting_def split: list.splits)
  have after: "\<not> isLoading (ui a) \<and> (error (ui a) = [] \<or> weatherData (ui a) = None)"
    if "evs = es @ [Settle r]" for es r
  proof -
    from assms that obtain b where b: "run K E initial_app es = Some b"
      and st: "step K E b (Settle r) = Some a"
      by (auto simp: run_snoc split: option.splits)
    from run_consistent [OF initial_consistent b] have "settled_or_waiting b"
      by (simp add: consistent_def)
    with st obtain url where "in_flight b = [url]" "error (ui b) = []" "weatherData (ui b) = None"
      and a: "a = \<lparr>ui = handleSubmit_settle E (ui b) r, in_flight = []\<rparr>"
      by (auto simp: settled_or_waiting_def split: list.splits)
    with settle_at_most_one [of "ui b" E r] show ?thesis
      by (simp add: settle_not_loading)
  qed
  have both: "\<not> isLoading (ui a) \<and>
      (error (ui a) = missing_location_message \<or> error (ui a) = missing_date_message)"
    if "error (ui a) \<noteq> [] \<and> weatherData (ui a) \<noteq> None"
    using that c inv by (auto simp: consistent_def settled_or_waiting_def split: list.splits)
  from now after both show ?thesis by blast
qed

theorem request_state_invariant_witness:
  "run (Some (str ''key'')) sample_engine initial_app
     [LocationInput (str ''Tokyo''), Submit, ModeChange MODES_MARINE,
      Settle (Response True (BodyParsed london_body))] =
     Some \<lparr>ui = initial_state\<lparr>mode := MODES_MARINE, location := str ''Tokyo'',
                               weatherData := Some london_body\<rparr>,
           in_flight = []\<rparr> \<and>
   \<not> isLoading (initial_state\<lparr>mode := MODES_MARINE, location := str ''Tokyo'',
                               weatherData := Some london_body\<rparr>) \<and>
   error (initial_state\<lparr>mode := MODES_MARINE, location := str ''Tokyo'',
                         weatherData := Some london_body\<rparr>) = []"
proof -
  have r: "run (Some (str ''key'')) sample_engine initial_app
     ([LocationInput (str ''Tokyo''), Submit, ModeChange MODES_MARINE] @
      [Settle (Response True (BodyParsed london_body))]) =
     Some \<lparr>ui = initial_state\<lparr>mode := MODES_MARINE, location := str ''Tokyo'',
                               weatherData := Some london_body\<rparr>,
           in_flight = []\<rparr>"
    by code_simp
  from request_state_invariant [OF r] r show ?thesis
    by (simp add: initial_state_def)
qed

end
